theory Spec2Isabelle
  imports Main "HOL-Library.AList"
begin

section \<open>Python values\<close>

text \<open>
  Vocabulary items are free-form JSON dictionaries. Their values are modelled by
  \<open>pyval\<close>: \<open>None\<close>, booleans, (unbounded) integers, strings, lists and dictionaries
  with string keys. A dictionary is an association list in insertion order, read with
  \<open>map_of\<close> (the first binding of a key is the binding). Floating point numbers are
  left out. Strings are \<open>char list\<close>.
\<close>

datatype pyval =
    PNone
  | PBool bool
  | PInt int
  | PStr string
  | PList "pyval list"
  | PDict "(string \<times> pyval) list"

type_synonym pydict = "(string \<times> pyval) list"

text \<open>Truth value testing: \<open>None\<close>, \<open>False\<close>, \<open>0\<close> and empty containers are false.\<close>

fun truthy :: "pyval \<Rightarrow> bool" where
  "truthy PNone = False"
| "truthy (PBool b) = b"
| "truthy (PInt i) = (i \<noteq> 0)"
| "truthy (PStr s) = (s \<noteq> [])"
| "truthy (PList xs) = (xs \<noteq> [])"
| "truthy (PDict d) = (d \<noteq> [])"

text \<open>\<open>d.get(k)\<close>, \<open>d.get(k, default)\<close>, \<open>k in d\<close>, \<open>d[k] = v\<close> and \<open>del d[k]\<close>.\<close>

definition dict_get :: "pydict \<Rightarrow> string \<Rightarrow> pyval" where
  "dict_get d k = (case map_of d k of None \<Rightarrow> PNone | Some v \<Rightarrow> v)"

definition dict_get_default :: "pydict \<Rightarrow> string \<Rightarrow> pyval \<Rightarrow> pyval" where
  "dict_get_default d k dflt = (case map_of d k of None \<Rightarrow> dflt | Some v \<Rightarrow> v)"

definition has_key :: "pydict \<Rightarrow> string \<Rightarrow> bool" where
  "has_key d k = (map_of d k \<noteq> None)"

primrec dict_set :: "pydict \<Rightarrow> string \<Rightarrow> pyval \<Rightarrow> pydict" where
  "dict_set [] k v = [(k, v)]"
| "dict_set (p # ps) k v = (if fst p = k then (k, v) # ps else p # dict_set ps k v)"

definition dict_del :: "pydict \<Rightarrow> string \<Rightarrow> pydict" where
  "dict_del d k = filter (\<lambda>p. fst p \<noteq> k) d"

text \<open>
  Python's \<open>==\<close>: \<open>bool\<close> is a subclass of \<open>int\<close> (\<open>True == 1\<close>), lists compare
  element-wise, dictionaries compare as mappings whatever their insertion order.
\<close>

function (sequential) py_eq :: "pyval \<Rightarrow> pyval \<Rightarrow> bool" where
  "py_eq PNone PNone = True"
| "py_eq (PBool a) (PBool b) = (a = b)"
| "py_eq (PBool a) (PInt j) = ((if a then 1 else 0) = j)"
| "py_eq (PInt i) (PBool b) = (i = (if b then 1 else 0))"
| "py_eq (PInt i) (PInt j) = (i = j)"
| "py_eq (PStr s) (PStr t) = (s = t)"
| "py_eq (PList xs) (PList ys) =
     (length xs = length ys \<and> list_all (\<lambda>(x, y). py_eq x y) (zip xs ys))"
| "py_eq (PDict d) (PDict e) =
     (list_all (\<lambda>(k, v). case map_of e k of None \<Rightarrow> False | Some w \<Rightarrow> py_eq v w) d
      \<and> list_all (\<lambda>(k, w). map_of d k \<noteq> None) e)"
| "py_eq _ _ = False"
  by pat_completeness auto
termination
proof -
  have in_list: "size x < Suc (size_list size xs)" if "x \<in> set xs"
    for x :: pyval and xs
    using that by (induction xs) auto
  have in_dict: "size v < Suc (size_list (size_prod (\<lambda>x. 0) size) d)" if "(k, v) \<in> set d"
    for k :: string and v :: pyval and d
    using that by (induction d) auto
  show ?thesis
    by (relation "measure (\<lambda>(a, b). size a)")
       (auto dest: set_zip_leftD in_list in_dict)
qed

text \<open>\<open>x in xs\<close> on a list compares with \<open>==\<close>.\<close>

definition py_in :: "pyval \<Rightarrow> pyval list \<Rightarrow> bool" where
  "py_in x xs = list_ex (py_eq x) xs"

subsection \<open>\<open>str()\<close>, \<open>upper()\<close> and \<open>lower()\<close>\<close>

definition digit_char :: "nat \<Rightarrow> char" where
  "digit_char n = char_of (48 + n)"

function dec_nat :: "nat \<Rightarrow> string" where
  "dec_nat n = (if n < 10 then [digit_char n] else dec_nat (n div 10) @ [digit_char (n mod 10)])"
  by pat_completeness auto
termination
  by (relation "measure id") auto

definition dec_int :: "int \<Rightarrow> string" where
  "dec_int i = (if i < 0 then CHR ''-'' # dec_nat (nat (- i)) else dec_nat (nat i))"

definition hex_char :: "nat \<Rightarrow> char" where
  "hex_char n = (if n < 10 then char_of (48 + n) else char_of (87 + n))"

text \<open>
  \<open>repr\<close> of a string: single quotes, unless the string holds a single quote and no
  double quote; the quote in use and the backslash are escaped, control characters are
  written \<open>\\t\<close>, \<open>\\n\<close>, \<open>\\r\<close> or \<open>\\xhh\<close>.
\<close>

definition repr_char :: "char \<Rightarrow> char \<Rightarrow> string" where
  "repr_char q c =
     (if c = q \<or> c = CHR 0x5C then [CHR 0x5C, c]
      else if c = CHR 0x09 then [CHR 0x5C, CHR ''t'']
      else if c = CHR 0x0A then [CHR 0x5C, CHR ''n'']
      else if c = CHR 0x0D then [CHR 0x5C, CHR ''r'']
      else if (of_char c :: nat) < 32 \<or> c = CHR 0x7F
        then [CHR 0x5C, CHR ''x'', hex_char (of_char c div 16), hex_char (of_char c mod 16)]
      else [c])"

definition repr_str :: "string \<Rightarrow> string" where
  "repr_str s =
     (let q = (if CHR 0x27 \<in> set s \<and> CHR 0x22 \<notin> set s then CHR 0x22 else CHR 0x27)
      in q # concat (map (repr_char q) s) @ [q])"

fun join :: "string \<Rightarrow> string list \<Rightarrow> string" where
  "join sep [] = []"
| "join sep [x] = x"
| "join sep (x # y # ys) = x @ sep @ join sep (y # ys)"

fun py_repr :: "pyval \<Rightarrow> string" where
  "py_repr PNone = ''None''"
| "py_repr (PBool b) = (if b then ''True'' else ''False'')"
| "py_repr (PInt i) = dec_int i"
| "py_repr (PStr s) = repr_str s"
| "py_repr (PList xs) = ''['' @ join '', '' (map py_repr xs) @ '']''"
| "py_repr (PDict d) =
     ''{'' @ join '', '' (map (\<lambda>(k, v). repr_str k @ '': '' @ py_repr v) d) @ ''}''"

definition py_str :: "pyval \<Rightarrow> string" where
  "py_str v = (case v of PStr s \<Rightarrow> s | _ \<Rightarrow> py_repr v)"

text \<open>
  \<open>str.upper()\<close> and \<open>str.lower()\<close> follow the case tables of the Unicode database
  that comes with the Python runtime. The tables are a parameter of the model:
  \<open>text_case\<close> holds the two mappings, and every function that converts case takes
  it as its first argument.
\<close>

record text_case =
  upper :: "string \<Rightarrow> string"
  lower :: "string \<Rightarrow> string"

section \<open>Errors\<close>

text \<open>
  Every \<open>raise\<close> of the service is a constructor. \<open>RequiredField field index\<close>,
  \<open>LinkNotFound link_vocab link_field value field index\<close>, \<open>CannotBeEmpty unique_field\<close>,
  \<open>NotUnique value unique_field\<close> and \<open>DefaultVocabulary\<close> are the calls of
  \<open>SuperdeskApiError.badRequestError\<close>; \<open>IdInUse\<close> and \<open>IdDeleted\<close> are the
  \<open>SuperdeskApiError\<close>s with payloads \<open>{"_id": {"conflict": 1}}\<close> and
  \<open>{"_id": {"deleted": 1}}\<close>. \<open>DuplicateKey\<close> is the store's; \<open>KeyError\<close>,
  \<open>AttributeError\<close> and \<open>TypeError\<close> are Python's own.
\<close>

datatype error =
    RequiredField string nat
  | LinkNotFound string string pyval string nat
  | CannotBeEmpty string
  | NotUnique pyval string
  | DefaultVocabulary
  | IdInUse string
  | IdDeleted string
  | DuplicateKey string
  | KeyError string
  | AttributeError
  | TypeError

section \<open>Vocabulary documents\<close>

text \<open>
  A vocabulary document is a dictionary whose keys are typed by the resource schema
  (\<open>VocabulariesResource.schema\<close>): \<open>_id\<close>, \<open>display_name\<close> and \<open>type\<close> are
  strings, \<open>items\<close> is a list of free-form dictionaries, \<open>schema\<close> maps a field
  name to its rule, \<open>unique_field\<close> and \<open>field_type\<close> are nullable strings. Every
  field is optional (\<open>None\<close>: the key is absent), so that a partial update is a document
  too; for the nullable keys \<open>Some None\<close> is the key present with the value \<open>None\<close>.
  \<open>deleted\<close> is the soft-delete flag \<open>_deleted\<close>.

  A field rule is the dictionary \<open>desc\<close> of \<open>_validate_items\<close>, read at the keys
  \<open>required\<close>, \<open>link_vocab\<close> and \<open>link_field\<close>.
\<close>

record field_desc =
  required :: "bool option"
  link_vocab :: "string option"
  link_field :: "string option"

record vocabulary =
  vid :: "string option"
  display_name :: "string option"
  vtype :: "string option"
  items :: "pydict list option"
  unique_field :: "string option option"
  schema :: "(string \<times> field_desc) list option"
  field_type :: "string option option"
  deleted :: "bool option"

text \<open>\<open>doc.get(key)\<close> on a nullable string key, and its truth value.\<close>

definition get_str :: "string option option \<Rightarrow> string option" where
  "get_str f = (case f of None \<Rightarrow> None | Some v \<Rightarrow> v)"

definition truthy_str :: "string option \<Rightarrow> bool" where
  "truthy_str v = (case v of None \<Rightarrow> False | Some s \<Rightarrow> s \<noteq> [])"

section \<open>The vocabulary store\<close>

text \<open>
  The service reads and writes its collection through \<open>BaseService\<close>
  (\<open>superdesk.services\<close>) and the backend. \<open>store\<close> is the state they
  act on: the collection, one document per id (\<open>_id\<close> is the primary key, so a
  soft-deleted document keeps its id taken), and the notifications pushed so far, each
  the event name, the \<open>display_name\<close> of the vocabulary and its id.
\<close>

record store =
  collection :: "string \<Rightarrow> vocabulary option"
  notifications :: "(string \<times> string option \<times> string) list"

text \<open>
  Modelled from the spec: \<open>BaseService.find_one\<close>, the store's
  \<open>findOne(id) -> Optional<Vocabulary>\<close>. With soft delete enabled on the resource a
  lookup that does not mention \<open>_deleted\<close> skips the soft-deleted documents.
\<close>

definition find_one :: "store \<Rightarrow> string \<Rightarrow> vocabulary option" where
  "find_one st i =
     (case collection st i of
        None \<Rightarrow> None
      | Some d \<Rightarrow> if deleted d = Some True then None else Some d)"

text \<open>
  Modelled from the spec: \<open>find_one(req=None, _id=i, _deleted=True)\<close>, the lookup of a
  "previously soft-deleted vocabulary" with that id.
\<close>

definition find_one_deleted :: "store \<Rightarrow> string \<Rightarrow> vocabulary option" where
  "find_one_deleted st i =
     (case collection st i of
        None \<Rightarrow> None
      | Some d \<Rightarrow> if deleted d = Some True then Some d else None)"

text \<open>\<open>dict.update\<close> on documents: every key of \<open>updates\<close> replaces the original's.\<close>

definition dict_update :: "vocabulary \<Rightarrow> vocabulary \<Rightarrow> vocabulary" where
  "dict_update original updates =
     \<lparr>vid = (case vid updates of None \<Rightarrow> vid original | Some x \<Rightarrow> Some x),
      display_name =
        (case display_name updates of None \<Rightarrow> display_name original | Some x \<Rightarrow> Some x),
      vtype = (case vtype updates of None \<Rightarrow> vtype original | Some x \<Rightarrow> Some x),
      items = (case items updates of None \<Rightarrow> items original | Some x \<Rightarrow> Some x),
      unique_field =
        (case unique_field updates of None \<Rightarrow> unique_field original | Some x \<Rightarrow> Some x),
      schema = (case schema updates of None \<Rightarrow> schema original | Some x \<Rightarrow> Some x),
      field_type =
        (case field_type updates of None \<Rightarrow> field_type original | Some x \<Rightarrow> Some x),
      deleted = (case deleted updates of None \<Rightarrow> deleted original | Some x \<Rightarrow> Some x)\<rparr>"

text \<open>
  Modelled from the spec: the backend's \<open>create\<close>, the store's \<open>insert(docs)\<close>. An id
  already in the collection is a duplicate key; a document without \<open>_id\<close> cannot be
  stored under a key of its own choosing here.
\<close>

fun insert_docs :: "store \<Rightarrow> vocabulary list \<Rightarrow> error + store" where
  "insert_docs st [] = Inr st"
| "insert_docs st (d # ds) =
     (case vid d of
        None \<Rightarrow> Inl (KeyError ''_id'')
      | Some i \<Rightarrow>
          (case collection st i of
             Some _ \<Rightarrow> Inl (DuplicateKey i)
           | None \<Rightarrow> insert_docs (st\<lparr>collection := (collection st)(i \<mapsto> d)\<rparr>) ds))"

text \<open>
  Modelled from the spec: \<open>BaseService.system_update\<close>, the store's "internal-only
  update path that bypasses some hooks": the stored document takes the keys of
  \<open>updates\<close>.
\<close>

definition system_update :: "store \<Rightarrow> string \<Rightarrow> vocabulary \<Rightarrow> store" where
  "system_update st i updates =
     (case collection st i of
        None \<Rightarrow> st
      | Some d \<Rightarrow> st\<lparr>collection := (collection st)(i \<mapsto> dict_update d updates)\<rparr>)"

section \<open>Validation\<close>

text \<open>
  \<^verbatim>\<open>
  def _check_uniqueness(self, items, unique_field):
      unique_values = []
      for item in items:
          # compare only the active items
          if not item.get("is_active"):
              continue
          if not item.get(unique_field):
              raise SuperdeskApiError.badRequestError("{} cannot be empty".format(unique_field))
          unique_value = str(item.get(unique_field)).upper()
          if unique_value in unique_values:
              raise SuperdeskApiError.badRequestError(
                  "Value {} for field {} is not unique".format(item.get(unique_field), unique_field))
          unique_values.append(unique_value)
  \<close>
  The loop is \<open>check_uniqueness_loop\<close>, with \<open>unique_values\<close> as its accumulator.
\<close>

fun check_uniqueness_loop ::
  "text_case \<Rightarrow> string list \<Rightarrow> pydict list \<Rightarrow> string \<Rightarrow> error + unit" where
  "check_uniqueness_loop tc unique_values [] uf = Inr ()"
| "check_uniqueness_loop tc unique_values (item # rest) uf =
     (if \<not> truthy (dict_get item ''is_active'') then check_uniqueness_loop tc unique_values rest uf
      else if \<not> truthy (dict_get item uf) then Inl (CannotBeEmpty uf)
      else let unique_value = upper tc (py_str (dict_get item uf))
           in if unique_value \<in> set unique_values then Inl (NotUnique (dict_get item uf) uf)
              else check_uniqueness_loop tc (unique_values @ [unique_value]) rest uf)"

definition check_uniqueness :: "text_case \<Rightarrow> pydict list \<Rightarrow> string \<Rightarrow> error + unit" where
  "check_uniqueness tc its uf = check_uniqueness_loop tc [] its uf"

text \<open>
  \<open>_validate_items\<close> keeps a dictionary \<open>vocabs\<close> of the values resolved for each
  linked vocabulary. The model threads it through both loops together with the list of
  the ids \<open>find_one\<close> was called with, in call order, so that the store round-trips of
  one validation call can be counted.

  \<^verbatim>\<open>
  for field, desc in update.get("schema", {}).items():
      if (desc.get("required", False) or unique_field == field) and (
          field not in item or not item[field]
      ):
          raise SuperdeskApiError.badRequestError(message=msg, payload=payload)
      elif desc.get("link_vocab") and desc.get("link_field"):
          if not vocabs.get(desc["link_vocab"]):
              linked_vocab = self.find_one(req=None, _id=desc["link_vocab"]) or {}
              vocabs[desc["link_vocab"]] = [
                  vocab.get(desc["link_field"]) for vocab in linked_vocab.get("items") or []
              ]
          if item.get(field) and item[field] not in vocabs[desc["link_vocab"]]:
              raise SuperdeskApiError.badRequestError(message=msg, payload=payload)
  \<close>
\<close>

type_synonym vocabs = "(string \<times> pyval list) list"

definition vocabs_get :: "vocabs \<Rightarrow> string \<Rightarrow> pyval list" where
  "vocabs_get vocabs k = (case map_of vocabs k of None \<Rightarrow> [] | Some vs \<Rightarrow> vs)"

definition linked_values :: "store \<Rightarrow> string \<Rightarrow> string \<Rightarrow> pyval list" where
  "linked_values st lv lf =
     (case find_one st lv of
        None \<Rightarrow> []
      | Some linked_vocab \<Rightarrow>
          (case items linked_vocab of
             None \<Rightarrow> []
           | Some its \<Rightarrow> map (\<lambda>vocab. dict_get vocab lf) its))"

fun validate_fields ::
  "store \<Rightarrow> string option \<Rightarrow> nat \<Rightarrow> pydict \<Rightarrow> (string \<times> field_desc) list \<Rightarrow>
     vocabs \<Rightarrow> string list \<Rightarrow> vocabs \<times> string list \<times> error option" where
  "validate_fields st uf index item [] vocabs calls = (vocabs, calls, None)"
| "validate_fields st uf index item ((field, desc) # rest) vocabs calls =
     (if (required desc = Some True \<or> uf = Some field)
         \<and> (\<not> has_key item field \<or> \<not> truthy (dict_get item field))
      then (vocabs, calls, Some (RequiredField field index))
      else if truthy_str (link_vocab desc) \<and> truthy_str (link_field desc) then
        (let lv = the (link_vocab desc);
             lf = the (link_field desc);
             miss = (vocabs_get vocabs lv = []);
             vocabs' = (if miss then AList.update lv (linked_values st lv lf) vocabs else vocabs);
             calls' = (if miss then calls @ [lv] else calls)
         in if truthy (dict_get item field) \<and> \<not> py_in (dict_get item field) (vocabs_get vocabs' lv)
            then (vocabs', calls', Some (LinkNotFound lv lf (dict_get item field) field index))
            else validate_fields st uf index item rest vocabs' calls')
      else validate_fields st uf index item rest vocabs calls)"

fun validate_loop ::
  "store \<Rightarrow> string option \<Rightarrow> (string \<times> field_desc) list \<Rightarrow> nat \<Rightarrow> pydict list \<Rightarrow>
     vocabs \<Rightarrow> string list \<Rightarrow> string list \<times> error option" where
  "validate_loop st uf sch index [] vocabs calls = (calls, None)"
| "validate_loop st uf sch index (item # rest) vocabs calls =
     (case validate_fields st uf index item sch vocabs calls of
        (vocabs', calls', Some e) \<Rightarrow> (calls', Some e)
      | (vocabs', calls', None) \<Rightarrow> validate_loop st uf sch (Suc index) rest vocabs' calls')"

text \<open>
  \<^verbatim>\<open>
  def _validate_items(self, update):
      # if we have qcode and not unique_field set, we want it to be qcode
      try:
          update["schema"]["qcode"]
      except KeyError:
          pass
      else:
          update.setdefault("unique_field", "qcode")
      unique_field = update.get("unique_field")
      vocabs = {}
      if "schema" in update and "items" in update:
          for index, item in enumerate(update["items"]):
              ...
  \<close>
  The method mutates \<open>update\<close>; the model returns the document as the call leaves it
  (\<open>updated\<close>), the ids \<open>find_one\<close> was called with (\<open>lookups\<close>) and the error raised,
  if any (\<open>raised\<close>).
\<close>

record validation =
  updated :: vocabulary
  lookups :: "string list"
  raised :: "error option"

definition setdefault_unique_field :: "vocabulary \<Rightarrow> vocabulary" where
  "setdefault_unique_field update =
     (case schema update of
        None \<Rightarrow> update
      | Some sch \<Rightarrow>
          if map_of sch ''qcode'' = None then update
          else (case unique_field update of
                  None \<Rightarrow> update\<lparr>unique_field := Some (Some ''qcode'')\<rparr>
                | Some _ \<Rightarrow> update))"

definition validate_items :: "store \<Rightarrow> vocabulary \<Rightarrow> validation" where
  "validate_items st update0 =
     (let update = setdefault_unique_field update0;
          uf = get_str (unique_field update)
      in case (schema update, items update) of
           (Some sch, Some its) \<Rightarrow>
             (case validate_loop st uf sch 0 its [] [] of
                (calls, r) \<Rightarrow> \<lparr>updated = update, lookups = calls, raised = r\<rparr>)
         | _ \<Rightarrow> \<lparr>updated = update, lookups = [], raised = None\<rparr>)"

section \<open>Lifecycle hooks\<close>

text \<open>
  \<^verbatim>\<open>
  def on_create(self, docs):
      for doc in docs:
          self._validate_items(doc)
          if doc.get("field_type") and doc["_id"] in self.system_keys:
              raise SuperdeskApiError(message="{} is in use".format(doc["_id"]), ...)
          if self.find_one(req=None, **{"_id": doc["_id"], "_deleted": True}):
              raise SuperdeskApiError(
                  message="{} is used by deleted vocabulary".format(doc["_id"]), ...)
  \<close>
  \<open>system_keys\<close> is built from \<open>DEFAULT_SCHEMA\<close> and \<open>DEFAULT_EDITOR\<close> of
  \<open>superdesk.default_schema\<close>: it is a parameter. The model returns the documents as
  the hook leaves them.
\<close>

fun on_create :: "string set \<Rightarrow> store \<Rightarrow> vocabulary list \<Rightarrow> error + vocabulary list" where
  "on_create system_keys st [] = Inr []"
| "on_create system_keys st (doc0 # docs) =
     (let v = validate_items st doc0; doc = updated v
      in case raised v of
           Some e \<Rightarrow> Inl e
         | None \<Rightarrow>
             (case vid doc of
                None \<Rightarrow> Inl (KeyError ''_id'')
              | Some i \<Rightarrow>
                  if truthy_str (get_str (field_type doc)) \<and> i \<in> system_keys then Inl (IdInUse i)
                  else if find_one_deleted st i \<noteq> None then Inl (IdDeleted i)
                  else (case on_create system_keys st docs of
                          Inl e \<Rightarrow> Inl e
                        | Inr docs' \<Rightarrow> Inr (doc # docs'))))"

text \<open>
  \<^verbatim>\<open>
  def _send_notification(self, updated_vocabulary, event="vocabularies:updated"):
      user = get_user_from_request()
      push_notification(event, vocabulary=updated_vocabulary.get("display_name"),
          user=..., vocabulary_id=updated_vocabulary["_id"])
  \<close>
  The user comes from the request and is not recorded.
\<close>

definition send_notification :: "store \<Rightarrow> vocabulary \<Rightarrow> string \<Rightarrow> error + store" where
  "send_notification st updated_vocabulary event =
     (case vid updated_vocabulary of
        None \<Rightarrow> Inl (KeyError ''_id'')
      | Some i \<Rightarrow>
          Inr (st\<lparr>notifications :=
                 notifications st @ [(event, display_name updated_vocabulary, i)]\<rparr>))"

fun on_created :: "store \<Rightarrow> vocabulary list \<Rightarrow> error + store" where
  "on_created st [] = Inr st"
| "on_created st (doc # docs) =
     (case send_notification st doc ''vocabularies:created'' of
        Inl e \<Rightarrow> Inl e
      | Inr st' \<Rightarrow> on_created st' docs)"

definition on_updated :: "store \<Rightarrow> vocabulary \<Rightarrow> vocabulary \<Rightarrow> error + store" where
  "on_updated st updates original = send_notification st original ''vocabularies:updated''"

text \<open>
  \<^verbatim>\<open>
  def on_update(self, updates, original):
      """Checks the duplicates if a unique field is defined"""
      if "items" in updates:
          updated = deepcopy(original)
          updated.update(updates)
          self._validate_items(updated)
      unique_field = original.get("unique_field")
      if unique_field:
          self._check_uniqueness(updates.get("items", []), unique_field)
  \<close>
  \<open>updated\<close> is a deep copy: what \<open>_validate_items\<close> writes to it is dropped.
\<close>

definition on_update ::
  "text_case \<Rightarrow> store \<Rightarrow> vocabulary \<Rightarrow> vocabulary \<Rightarrow> error + unit" where
  "on_update tc st updates original =
     (case (if items updates \<noteq> None
            then raised (validate_items st (dict_update original updates)) else None) of
        Some e \<Rightarrow> Inl e
      | None \<Rightarrow>
          (let uf = get_str (unique_field original)
           in if truthy_str uf
              then check_uniqueness tc (case items updates of None \<Rightarrow> [] | Some its \<Rightarrow> its) (the uf)
              else Inr ()))"

text \<open>
  Modelled from the spec: \<open>BaseService.post\<close>, the create path of the CRUD surface:
  \<open>on_create\<close>, then the store's insert, then \<open>on_created\<close>; an error at any step
  leaves the store as it was ("all documents in a create/update batch succeed or none
  are persisted").
\<close>

definition post :: "string set \<Rightarrow> store \<Rightarrow> vocabulary list \<Rightarrow> error + store" where
  "post system_keys st docs =
     (case on_create system_keys st docs of
        Inl e \<Rightarrow> Inl e
      | Inr docs' \<Rightarrow>
          (case insert_docs st docs' of
             Inl e \<Rightarrow> Inl e
           | Inr st' \<Rightarrow> on_created st' docs'))"

section \<open>Keyword merger\<close>

text \<open>
  \<^verbatim>\<open>
  def add_missing_keywords(self, keywords, language=None):
      if not keywords:
          return
      cv = self.find_one(req=None, _id=KEYWORDS_CV)
      if cv:
          existing = {item["name"].lower() for item in cv.get("items", [])}
          missing = [keyword for keyword in keywords if keyword.lower() not in existing]
          if missing:
              updates = {"items": cv.get("items", [])}
              for keyword in missing:
                  updates["items"].append({"name": keyword, "qcode": keyword, "is_active": True})
              self.on_update(updates, cv)
              self.system_update(cv["_id"], updates, cv)
              self.on_updated(updates, cv)
      else:
          items = [{"name": keyword, "qcode": keyword, "is_active": True} for keyword in keywords]
          cv = {"_id": KEYWORDS_CV, "items": items, "type": "manageable",
                "display_name": _("Keywords"), "unique_field": "name",
                "schema": {"name": {}, "qcode": {}}}
          self.post([cv])
  \<close>
  \<open>keywords\<close> is a list of strings; \<open>language\<close> is not used by the method. A document
  found in the store is a non-empty dictionary, so \<open>if cv\<close> asks whether one was found.
  \<open>updates["items"]\<close> is the very list object of \<open>cv["items"]\<close> when \<open>cv\<close> has that
  key: the appended items show in \<open>cv\<close> too, which is the \<open>original\<close> of the hooks.
  The display name is the untranslated message.
\<close>

definition KEYWORDS_CV :: string where
  "KEYWORDS_CV = ''keywords''"

definition empty_doc :: vocabulary where
  "empty_doc = \<lparr>vid = None, display_name = None, vtype = None, items = None,
     unique_field = None, schema = None, field_type = None, deleted = None\<rparr>"

definition empty_desc :: field_desc where
  "empty_desc = \<lparr>required = None, link_vocab = None, link_field = None\<rparr>"

definition keyword_item :: "string \<Rightarrow> pydict" where
  "keyword_item keyword =
     [(''name'', PStr keyword), (''qcode'', PStr keyword), (''is_active'', PBool True)]"

fun existing_names :: "text_case \<Rightarrow> pydict list \<Rightarrow> error + string list" where
  "existing_names tc [] = Inr []"
| "existing_names tc (item # rest) =
     (case map_of item ''name'' of
        None \<Rightarrow> Inl (KeyError ''name'')
      | Some (PStr s) \<Rightarrow>
          (case existing_names tc rest of
             Inl e \<Rightarrow> Inl e
           | Inr ns \<Rightarrow> Inr (lower tc s # ns))
      | Some _ \<Rightarrow> Inl AttributeError)"

definition keywords_cv :: "string list \<Rightarrow> vocabulary" where
  "keywords_cv keywords =
     \<lparr>vid = Some KEYWORDS_CV, display_name = Some ''Keywords'', vtype = Some ''manageable'',
      items = Some (map keyword_item keywords), unique_field = Some (Some ''name''),
      schema = Some [(''name'', empty_desc), (''qcode'', empty_desc)],
      field_type = None, deleted = None\<rparr>"

text \<open>\<open>cv.get("items", [])\<close>.\<close>

definition items_of :: "vocabulary \<Rightarrow> pydict list" where
  "items_of cv = (case items cv of None \<Rightarrow> [] | Some its \<Rightarrow> its)"

definition add_missing_keywords ::
  "text_case \<Rightarrow> string set \<Rightarrow> store \<Rightarrow> string list \<Rightarrow> error + store" where
  "add_missing_keywords tc system_keys st keywords =
     (if keywords = [] then Inr st
      else case find_one st KEYWORDS_CV of
        Some cv \<Rightarrow>
          (let cv_items = items_of cv
           in case existing_names tc cv_items of
                Inl e \<Rightarrow> Inl e
              | Inr existing \<Rightarrow>
                  (let missing = filter (\<lambda>keyword. lower tc keyword \<notin> set existing) keywords
                   in if missing = [] then Inr st
                      else
                        (let new_items = cv_items @ map keyword_item missing;
                             updates = empty_doc\<lparr>items := Some new_items\<rparr>;
                             original =
                               (case items cv of
                                  None \<Rightarrow> cv
                                | Some _ \<Rightarrow> cv\<lparr>items := Some new_items\<rparr>)
                         in case on_update tc st updates original of
                              Inl e \<Rightarrow> Inl e
                            | Inr _ \<Rightarrow>
                                (case vid original of
                                   None \<Rightarrow> Inl (KeyError ''_id'')
                                 | Some i \<Rightarrow>
                                     on_updated (system_update st i updates) updates original))))
      | None \<Rightarrow> post system_keys st [keywords_cv keywords])"

section \<open>Query projector\<close>

text \<open>
  \<^verbatim>\<open>
  def get_items(self, _id, qcode=None, is_active=True, name=None, lang=None):
      projection = {}
      lookup = {"_id": _id}
      if qcode:
          elem_match = projection.setdefault("items", {}).setdefault("$elemMatch", {})
          elem_match["qcode"] = qcode
      if name and lang:
          elem_match = projection.setdefault("items", {}).setdefault("$elemMatch", {})
          elem_match[f"translations.name.{lang}"] = {"$regex": r"^{}$".format(name), "$options": "i"}
      elif name:
          elem_match = projection.setdefault("items", {}).setdefault("$elemMatch", {})
          elem_match["name"] = {"$regex": r"^{}$".format(name), "$options": "i"}
      cursor = self.get_from_mongo(req=None, lookup=lookup, projection=projection)
      try:
          items = cursor.next()["items"]
      except (StopIteration, KeyError):
          return []
      if is_active is not None:
          items = [i for i in items if i.get("is_active", True) == is_active]
      def format_item(item):
          try:
              del item["is_active"]
          except KeyError:
              pass
          item["scheme"] = _id
          return item
      items = list(map(format_item, items))
      return items
  \<close>
  The projection is the list of the conditions put under \<open>$elemMatch\<close> (empty: the
  projection \<open>{}\<close>). \<open>get_from_mongo\<close> is the store's query, with MongoDB's matching: it is
  the parameter \<open>mongo\<close>, which gives the documents of the cursor for an id and a
  projection.
\<close>

datatype cond = Equals string | Regex string string

type_synonym projection = "(string \<times> cond) list"

definition format_item :: "string \<Rightarrow> pydict \<Rightarrow> pydict" where
  "format_item i item = dict_set (dict_del item ''is_active'') ''scheme'' (PStr i)"

definition get_items ::
  "(string \<Rightarrow> projection \<Rightarrow> vocabulary list) \<Rightarrow> string \<Rightarrow> string option \<Rightarrow> bool option \<Rightarrow>
     string option \<Rightarrow> string option \<Rightarrow> pydict list" where
  "get_items mongo i qcode is_active name lang =
     (let p0 = (if truthy_str qcode then [(''qcode'', Equals (the qcode))] else []);
          p = (if truthy_str name \<and> truthy_str lang
               then AList.update (''translations.name.'' @ the lang)
                      (Regex (''^'' @ the name @ ''$'') ''i'') p0
               else if truthy_str name
               then AList.update ''name'' (Regex (''^'' @ the name @ ''$'') ''i'') p0
               else p0)
      in case mongo i p of
           [] \<Rightarrow> []
         | d # _ \<Rightarrow>
             (case items d of
                None \<Rightarrow> []
              | Some its \<Rightarrow>
                  map (format_item i)
                    (case is_active of
                       None \<Rightarrow> its
                     | Some b \<Rightarrow>
                         filter (\<lambda>it. py_eq (dict_get_default it ''is_active'' (PBool True)) (PBool b))
                           its)))"

section \<open>Locale resolver\<close>

text \<open>
  \<^verbatim>\<open>
  def get_locale_vocabulary(self, vocabulary, language):
      if not vocabulary or not language:
          return vocabulary
      locale_vocabulary = []
      for item in vocabulary:
          if "translations" not in item:
              locale_vocabulary.append(item)
              continue
          new_item = item.copy()
          locale_vocabulary.append(new_item)
          for field, values in new_item.get("translations", {}).items():
              if field in new_item and language in values:
                  new_item[field] = values[language]
      return locale_vocabulary
  \<close>
  Whether the method leaves its arguments alone is a question about objects, not
  values: the model has a heap of list objects (each a list of references to item
  objects) and of item objects (each a dictionary), both addressed by their index;
  allocation appends. The values inside an item are never written and stay values.
  \<open>vocabulary\<close> is \<open>None\<close> or the address of a list object, the result likewise.
\<close>

record heap =
  lists :: "nat list list"
  dicts :: "pydict list"

fun starts_with :: "string \<Rightarrow> string \<Rightarrow> bool" where
  "starts_with [] s = True"
| "starts_with (c # cs) [] = False"
| "starts_with (c # cs) (d # ds) = (c = d \<and> starts_with cs ds)"

fun contains :: "string \<Rightarrow> string \<Rightarrow> bool" where
  "contains [] sub = (sub = [])"
| "contains (c # cs) sub = (starts_with sub (c # cs) \<or> contains cs sub)"

text \<open>
  The inner loop, on the entries of the \<open>translations\<close> dictionary. \<open>language in values\<close>
  is a key test on a dictionary, a substring test on a string and a membership test on
  a list; in the last two cases \<open>values[language]\<close> then raises, as \<open>in\<close> itself does
  on any other value.
\<close>

fun overlay_fields :: "string \<Rightarrow> (string \<times> pyval) list \<Rightarrow> pydict \<Rightarrow> error + pydict" where
  "overlay_fields language [] new_item = Inr new_item"
| "overlay_fields language ((field, values) # rest) new_item =
     (if \<not> has_key new_item field then overlay_fields language rest new_item
      else case values of
             PDict vs \<Rightarrow>
               if has_key vs language
               then overlay_fields language rest (dict_set new_item field (dict_get vs language))
               else overlay_fields language rest new_item
           | PStr s \<Rightarrow>
               if contains s language then Inl TypeError
               else overlay_fields language rest new_item
           | PList xs \<Rightarrow>
               if py_in (PStr language) xs then Inl TypeError
               else overlay_fields language rest new_item
           | _ \<Rightarrow> Inl TypeError)"

definition list_append :: "heap \<Rightarrow> nat \<Rightarrow> nat \<Rightarrow> heap" where
  "list_append h a r = h\<lparr>lists := (lists h)[a := lists h ! a @ [r]]\<rparr>"

text \<open>
  The outer loop. \<open>item.copy()\<close> allocates the new item object; the writes of the inner
  loop all go to that object, so it is stored with the fields as the loop leaves them.
\<close>

fun locale_loop :: "string \<Rightarrow> nat \<Rightarrow> nat list \<Rightarrow> heap \<Rightarrow> error + heap" where
  "locale_loop language out [] h = Inr h"
| "locale_loop language out (r # rest) h =
     (let item = dicts h ! r
      in if \<not> has_key item ''translations'' then locale_loop language out rest (list_append h out r)
         else case dict_get item ''translations'' of
                PDict tr \<Rightarrow>
                  (case overlay_fields language tr item of
                     Inl e \<Rightarrow> Inl e
                   | Inr new_item \<Rightarrow>
                       locale_loop language out rest
                         (list_append (h\<lparr>dicts := dicts h @ [new_item]\<rparr>) out (length (dicts h))))
              | _ \<Rightarrow> Inl AttributeError)"

definition get_locale_vocabulary ::
  "heap \<Rightarrow> nat option \<Rightarrow> string option \<Rightarrow> error + heap \<times> nat option" where
  "get_locale_vocabulary h vocabulary language =
     (case vocabulary of
        None \<Rightarrow> Inr (h, None)
      | Some a \<Rightarrow>
          if lists h ! a = [] \<or> \<not> truthy_str language then Inr (h, Some a)
          else (let out = length (lists h)
                in case locale_loop (the language) out (lists h ! a) (h\<lparr>lists := lists h @ [[]]\<rparr>) of
                     Inl e \<Rightarrow> Inl e
                   | Inr h' \<Rightarrow> Inr (h', Some out)))"

section \<open>Deletion\<close>

text \<open>
  \<^verbatim>\<open>
  def on_delete(self, doc):
      if "field_type" not in doc:
          raise SuperdeskApiError.badRequestError("Default vocabularies cannot be deleted")
  \<close>
\<close>

definition on_delete :: "vocabulary \<Rightarrow> error + unit" where
  "on_delete doc = (if field_type doc = None then Inl DefaultVocabulary else Inr ())"

section \<open>Notions used in the statements\<close>

text \<open>
  \<open>is_active_equals b\<close> is the filter of \<open>get_items\<close>: the value of
  \<open>is_active\<close>, \<open>True\<close> when the key is absent, equals the requested one.
\<close>

definition is_active_equals :: "bool \<Rightarrow> pydict \<Rightarrow> bool" where
  "is_active_equals b item = py_eq (dict_get_default item ''is_active'' (PBool True)) (PBool b)"

text \<open>
  For the uniqueness check: the compared value of an item, \<open>str(...).upper()\<close> of
  its unique field; whether the item has a non-empty value there; whether its
  \<open>is_active\<close> is not \<open>False\<close>; whether it carries \<open>is_active\<close> as a boolean.
\<close>

definition unique_value :: "text_case \<Rightarrow> string \<Rightarrow> pydict \<Rightarrow> string" where
  "unique_value tc uf item = upper tc (py_str (dict_get item uf))"




text \<open>
  For the keyword merger: the store keeps each document under its own \<open>_id\<close>;
  the name of an item, as a string.
\<close>

definition wf_store :: "store \<Rightarrow> bool" where
  "wf_store st = (\<forall>i d. collection st i = Some d \<longrightarrow> vid d = Some i)"

definition name_of :: "pydict \<Rightarrow> string" where
  "name_of item = (case map_of item ''name'' of Some (PStr s) \<Rightarrow> s | _ \<Rightarrow> [])"

text \<open>
  For the locale resolver. \<open>translations_ok\<close>: the \<open>translations\<close> of an item, when
  present, is a dictionary (its keys distinct) from field names to dictionaries.
  \<open>translation language item field\<close> is the translation the item carries for that
  field and language, if any. \<open>resolved language item new_item\<close>: \<open>new_item\<close> has the
  keys of \<open>item\<close>, each with its translation when there is one and with the value
  of \<open>item\<close> otherwise. \<open>localised language h h' r r'\<close> relates the item object
  \<open>r\<close> of the heap \<open>h\<close> to the item object \<open>r'\<close> of the heap \<open>h'\<close>: \<open>r'\<close> is
  resolved from \<open>r\<close>, and it is \<open>r\<close> itself when \<open>r\<close> has no translations, an object
  allocated since \<open>h\<close> otherwise.
\<close>

definition is_dict :: "pyval \<Rightarrow> bool" where
  "is_dict v = (case v of PDict _ \<Rightarrow> True | _ \<Rightarrow> False)"

definition translations_ok :: "pydict \<Rightarrow> bool" where
  "translations_ok item =
     (case map_of item ''translations'' of
        None \<Rightarrow> True
      | Some (PDict tr) \<Rightarrow> distinct (map fst tr) \<and> list_all (\<lambda>(field, values). is_dict values) tr
      | Some _ \<Rightarrow> False)"

definition translated :: "(string \<times> pyval) list \<Rightarrow> string \<Rightarrow> string \<Rightarrow> pyval option" where
  "translated tr language field =
     (case map_of tr field of Some (PDict vs) \<Rightarrow> map_of vs language | _ \<Rightarrow> None)"

definition translation :: "string \<Rightarrow> pydict \<Rightarrow> string \<Rightarrow> pyval option" where
  "translation language item field =
     (case map_of item ''translations'' of
        Some (PDict tr) \<Rightarrow> translated tr language field
      | _ \<Rightarrow> None)"

definition resolved :: "string \<Rightarrow> pydict \<Rightarrow> pydict \<Rightarrow> bool" where
  "resolved language item new_item =
     (\<forall>field. map_of new_item field =
        (case map_of item field of
           None \<Rightarrow> None
         | Some v \<Rightarrow> (case translation language item field of None \<Rightarrow> Some v | Some t \<Rightarrow> Some t)))"

definition localised :: "string \<Rightarrow> heap \<Rightarrow> heap \<Rightarrow> nat \<Rightarrow> nat \<Rightarrow> bool" where
  "localised language h h' r r' =
     (r' < length (dicts h') \<and> resolved language (dicts h ! r) (dicts h' ! r')
      \<and> (if has_key (dicts h ! r) ''translations'' then length (dicts h) \<le> r' else r' = r))"

section \<open>Example documents\<close>

text \<open>Concrete stores and documents, on which the properties below are evaluated.\<close>

text \<open>
  The examples are ASCII text, on which the case mappings change the letters
  \<open>a\<close> to \<open>z\<close> and \<open>A\<close> to \<open>Z\<close> and nothing else: \<open>ascii_case\<close> is the
  parameter the examples are evaluated with.
\<close>

definition ascii_upper :: "char \<Rightarrow> char" where
  "ascii_upper c =
     (let n = (of_char c :: nat) in if 97 \<le> n \<and> n \<le> 122 then char_of (n - 32) else c)"

definition ascii_lower :: "char \<Rightarrow> char" where
  "ascii_lower c =
     (let n = (of_char c :: nat) in if 65 \<le> n \<and> n \<le> 90 then char_of (n + 32) else c)"

definition ascii_case :: text_case where
  "ascii_case = \<lparr>upper = map ascii_upper, lower = map ascii_lower\<rparr>"

definition empty_store :: store where
  "empty_store = \<lparr>collection = (\<lambda>i. None), notifications = []\<rparr>"

definition deleted_store :: store where
  "deleted_store = \<lparr>collection = (\<lambda>i. None)(''old'' \<mapsto> empty_doc\<lparr>vid := Some ''old'', deleted := Some True\<rparr>),
     notifications = []\<rparr>"

definition doc_items_only :: vocabulary where
  "doc_items_only = empty_doc\<lparr>vid := Some ''genre'', items := Some [[(''qcode'', PStr '''')], []]\<rparr>"

definition qcode_doc :: vocabulary where
  "qcode_doc = empty_doc\<lparr>vid := Some ''tags'', items := Some [],
     schema := Some [(''name'', empty_desc), (''qcode'', empty_desc)]\<rparr>"

definition duplicate_qcodes :: "pydict list" where
  "duplicate_qcodes =
     [[(''name'', PStr ''x''), (''qcode'', PStr ''a''), (''is_active'', PBool True)],
      [(''name'', PStr ''y''), (''qcode'', PStr ''A''), (''is_active'', PBool True)]]"

definition duplicate_names :: "pydict list" where
  "duplicate_names =
     [[(''name'', PStr ''a''), (''is_active'', PBool True)],
      [(''name'', PStr ''A''), (''is_active'', PBool True)]]"

definition named_doc :: vocabulary where
  "named_doc = empty_doc\<lparr>vid := Some ''tags'', unique_field := Some (Some ''name''),
     items := Some duplicate_names\<rparr>"

definition slugline_doc :: vocabulary where
  "slugline_doc = empty_doc\<lparr>vid := Some ''slugline'', items := Some []\<rparr>"

definition country_doc :: vocabulary where
  "country_doc = empty_doc\<lparr>vid := Some ''cities'',
     schema := Some [(''country'',
        \<lparr>required = None, link_vocab = Some ''countries'', link_field = Some ''qcode''\<rparr>)],
     items := Some [[(''name'', PStr ''Paris'')], [(''name'', PStr ''London'')]]\<rparr>"

definition languages_doc :: vocabulary where
  "languages_doc = empty_doc\<lparr>vid := Some ''languages'',
     items := Some [[(''name'', PStr ''English''), (''is_active'', PBool True)],
                    [(''name'', PStr ''Dead''), (''is_active'', PBool False)]]\<rparr>"

definition languages_mongo :: "string \<Rightarrow> projection \<Rightarrow> vocabulary list" where
  "languages_mongo i p = (if i = ''languages'' then [languages_doc] else [])"


definition three_keywords :: "string list" where
  "three_keywords = [''Paris'', ''paris'', ''London'']"

definition created_store :: store where
  "created_store =
     \<lparr>collection = (\<lambda>i. if i = ''keywords'' then Some (keywords_cv three_keywords) else None),
      notifications = [(''vocabularies:created'', Some ''Keywords'', ''keywords'')]\<rparr>"

definition empty_keywords_store :: store where
  "empty_keywords_store =
     \<lparr>collection = (\<lambda>i. if i = ''keywords'' then Some (keywords_cv []) else None),
      notifications = []\<rparr>"

definition global_item :: pydict where
  "global_item =
     [(''name'', PStr ''Global''),
      (''translations'', PDict [(''name'', PDict [(''fr'', PStr ''Monde'')])])]"

definition global_heap :: heap where
  "global_heap = \<lparr>lists = [[0]], dicts = [global_item]\<rparr>"

section \<open>Properties\<close>

text \<open>
  C8: \<open>on_delete\<close> raises the bad-request error for every vocabulary document that has
  no \<open>field_type\<close> entry, and raises nothing for every document in which the key
  \<open>field_type\<close> is present (whatever its value, \<open>None\<close> included).
\<close>

theorem on_delete_field_type:
  "(field_type doc = None \<longrightarrow> on_delete doc = Inl DefaultVocabulary)
   \<and> (field_type doc \<noteq> None \<longrightarrow> on_delete doc = Inr ())"
  by (simp add: on_delete_def)

theorem on_delete_field_type_witness:
  "on_delete \<lparr>vid = Some ''genre'', display_name = None, vtype = None, items = None,
      unique_field = None, schema = None, field_type = None, deleted = None\<rparr>
     = Inl DefaultVocabulary
   \<and> on_delete \<lparr>vid = Some ''my_tags'', display_name = None, vtype = None, items = None,
      unique_field = None, schema = None, field_type = Some (Some ''text''), deleted = None\<rparr>
     = Inr ()"
  using on_delete_field_type
    [of "\<lparr>vid = Some ''genre'', display_name = None, vtype = None, items = None,
      unique_field = None, schema = None, field_type = None, deleted = None\<rparr>"]
    on_delete_field_type
    [of "\<lparr>vid = Some ''my_tags'', display_name = None, vtype = None, items = None,
      unique_field = None, schema = None, field_type = Some (Some ''text''), deleted = None\<rparr>"]
  by simp

subsection \<open>What \<open>_validate_items\<close> leaves of its argument\<close>

lemma setdefault_keeps:
  "schema (setdefault_unique_field u) = schema u"
  "items (setdefault_unique_field u) = items u"
  "vid (setdefault_unique_field u) = vid u"
  "field_type (setdefault_unique_field u) = field_type u"
  by (auto simp: setdefault_unique_field_def split: option.splits)

lemma updated_validate_items:
  "updated (validate_items st u) = setdefault_unique_field u"
  by (simp add: validate_items_def Let_def split: option.splits prod.splits)

lemma validate_keeps:
  "vid (updated (validate_items st d)) = vid d"
  "field_type (updated (validate_items st d)) = field_type d"
  by (simp_all add: updated_validate_items setdefault_keeps)

text \<open>
  C9: for a candidate document without the key \<open>schema\<close> or without the key
  \<open>items\<close>, \<open>_validate_items\<close> runs none of its checks: it raises no error and
  makes no lookup of a linked vocabulary. A document carrying items but no schema passes.
\<close>

theorem validate_items_skips:
  "schema u = None \<or> items u = None \<Longrightarrow>
     raised (validate_items st u) = None \<and> lookups (validate_items st u) = []"
  by (auto simp: validate_items_def Let_def setdefault_keeps split: option.splits)

theorem validate_items_skips_witness:
  "schema doc_items_only = None \<and> raised (validate_items empty_store doc_items_only) = None
     \<and> lookups (validate_items empty_store doc_items_only) = []"
  using validate_items_skips [of doc_items_only empty_store]
  by (simp add: doc_items_only_def empty_doc_def)

subsection \<open>Creation\<close>

lemma on_created_collection:
  "on_created st ds = Inr st' \<Longrightarrow> collection st' = collection st"
  by (induction ds arbitrary: st) (auto simp: send_notification_def split: option.splits sum.splits)

lemma on_create_single:
  "on_create sk st [u] = Inr ds \<Longrightarrow> ds = [updated (validate_items st u)]"
  by (auto simp: Let_def split: option.splits if_splits)

lemma insert_single:
  "insert_docs st [d] = Inr st1 \<Longrightarrow> vid d = Some i \<Longrightarrow> collection st1 i = Some d"
  by (auto split: option.splits)

lemma post_single:
  assumes "post sk st [u] = Inr st'" and "vid u = Some i"
  shows "collection st' i = Some (updated (validate_items st u))"
proof -
  let ?d = "updated (validate_items st u)"
  from assms(1) obtain ds st1 where a: "on_create sk st [u] = Inr ds"
    and b: "insert_docs st ds = Inr st1" and c: "on_created st1 ds = Inr st'"
    unfolding post_def by (auto split: sum.splits)
  have ds: "ds = [?d]" using a by (rule on_create_single)
  have vd: "vid ?d = Some i" using assms(2) by (simp add: updated_validate_items setdefault_keeps)
  have "collection st1 i = Some ?d" using b vd unfolding ds by (rule insert_single)
  then show ?thesis using on_created_collection [OF c] by simp
qed

text \<open>
  C10: when the schema of the candidate has the key \<open>qcode\<close> and the candidate has no
  key \<open>unique_field\<close>, \<open>_validate_items\<close> leaves the candidate with
  \<open>unique_field = "qcode"\<close>. A vocabulary created that way is stored with that value,
  and an update of its items that passes validation is checked for unique \<open>qcode\<close>s.
\<close>

theorem validate_items_sets_qcode:
  assumes "schema u = Some sch" and "map_of sch ''qcode'' \<noteq> None" and "unique_field u = None"
  shows "unique_field (updated (validate_items st u)) = Some (Some ''qcode'')
     \<and> (\<forall>st' i. post system_keys st [u] = Inr st' \<and> vid u = Some i \<longrightarrow>
          (\<exists>d. collection st' i = Some d \<and> unique_field d = Some (Some ''qcode'')
             \<and> (\<forall>updates its. items updates = Some its
                  \<and> raised (validate_items st' (dict_update d updates)) = None \<longrightarrow>
                  on_update tc st' updates d = check_uniqueness tc its ''qcode'')))"
proof (intro conjI allI impI)
  show uq: "unique_field (updated (validate_items st u)) = Some (Some ''qcode'')"
    using assms by (simp add: updated_validate_items setdefault_unique_field_def)
  fix st' i
  assume p: "post system_keys st [u] = Inr st' \<and> vid u = Some i"
  let ?d = "updated (validate_items st u)"
  have c': "collection st' i = Some ?d"
    using p post_single by blast
  have "\<forall>updates its. items updates = Some its
                  \<and> raised (validate_items st' (dict_update ?d updates)) = None \<longrightarrow>
                  on_update tc st' updates ?d = check_uniqueness tc its ''qcode''"
    using uq by (simp add: on_update_def get_str_def truthy_str_def Let_def)
  then show "\<exists>d. collection st' i = Some d \<and> unique_field d = Some (Some ''qcode'')
             \<and> (\<forall>updates its. items updates = Some its
                  \<and> raised (validate_items st' (dict_update d updates)) = None \<longrightarrow>
                  on_update tc st' updates d = check_uniqueness tc its ''qcode'')"
    using c' uq by blast
qed

lemma duplicate_qcodes_rejected: "check_uniqueness ascii_case duplicate_qcodes ''qcode'' = Inl (NotUnique (PStr ''A'') ''qcode'')"
  by code_simp

theorem validate_items_sets_qcode_witness:
  "unique_field (updated (validate_items empty_store qcode_doc)) = Some (Some ''qcode'')
   \<and> (\<exists>st' d. post {} empty_store [qcode_doc] = Inr st' \<and> collection st' ''tags'' = Some d
        \<and> unique_field d = Some (Some ''qcode'')
        \<and> on_update ascii_case st' (empty_doc\<lparr>items := Some duplicate_qcodes\<rparr>) d
            = Inl (NotUnique (PStr ''A'') ''qcode''))"
proof -
  have s: "schema qcode_doc = Some [(''name'', empty_desc), (''qcode'', empty_desc)]"
    and u: "unique_field qcode_doc = None" and v: "vid qcode_doc = Some ''tags''"
    by (simp_all add: qcode_doc_def empty_doc_def)
  have m: "map_of [(''name'', empty_desc), (''qcode'', empty_desc)] ''qcode'' \<noteq> None"
    by simp
  note t = validate_items_sets_qcode [OF s m u, of empty_store "{}" ascii_case]
  have "\<exists>st'. post {} empty_store [qcode_doc] = Inr st'"
    by (simp add: post_def validate_items_def setdefault_unique_field_def qcode_doc_def
        empty_doc_def empty_store_def get_str_def truthy_str_def find_one_deleted_def
        send_notification_def Let_def)
  then obtain st' where p: "post {} empty_store [qcode_doc] = Inr st'" ..
  with t v obtain d where d: "collection st' ''tags'' = Some d"
      "unique_field d = Some (Some ''qcode'')"
      and ou: "\<forall>updates its. items updates = Some its
                  \<and> raised (validate_items st' (dict_update d updates)) = None \<longrightarrow>
                  on_update ascii_case st' updates d = check_uniqueness ascii_case its ''qcode''"
    by blast
  have sd: "schema d = Some [(''name'', empty_desc), (''qcode'', empty_desc)]"
    using post_single [OF p v] d(1) s by (simp add: updated_validate_items setdefault_keeps)
  have "raised (validate_items st' (dict_update d (empty_doc\<lparr>items := Some duplicate_qcodes\<rparr>))) = None"
    using sd d(2)
    by (simp add: validate_items_def setdefault_unique_field_def dict_update_def empty_doc_def
        duplicate_qcodes_def get_str_def Let_def has_key_def dict_get_def empty_desc_def
        truthy_str_def)
  then have "on_update ascii_case st' (empty_doc\<lparr>items := Some duplicate_qcodes\<rparr>) d
       = check_uniqueness ascii_case duplicate_qcodes ''qcode''"
    using ou by (simp add: empty_doc_def)
  then show ?thesis using t p d duplicate_qcodes_rejected by auto
qed

subsection \<open>Update\<close>

text \<open>
  C3, as the code has it: when the original document has a non-empty \<open>unique_field\<close>,
  \<open>on_update\<close> checks uniqueness over the items of the update when the update has
  the key \<open>items\<close> (after the merged document passed validation), and over the
  empty list otherwise, which never fails; the items of the original are not read.
\<close>

theorem on_update_rechecks:
  assumes "truthy_str (get_str (unique_field original))"
  shows "(items updates = None \<longrightarrow> on_update tc st updates original = Inr ()
            \<and> on_update tc st updates original
                = check_uniqueness tc [] (the (get_str (unique_field original))))
     \<and> (\<forall>its. items updates = Some its \<longrightarrow>
           on_update tc st updates original
             = (case raised (validate_items st (dict_update original updates)) of
                  Some e \<Rightarrow> Inl e
                | None \<Rightarrow> check_uniqueness tc its (the (get_str (unique_field original)))))"
  using assms by (simp add: on_update_def check_uniqueness_def Let_def split: option.splits)

theorem on_update_rechecks_witness:
  "on_update ascii_case empty_store (empty_doc\<lparr>display_name := Some ''Tags''\<rparr>) named_doc = Inr ()
   \<and> on_update ascii_case empty_store (empty_doc\<lparr>items := Some duplicate_names\<rparr>) named_doc
       = Inl (NotUnique (PStr ''A'') ''name'')"
proof -
  have t: "truthy_str (get_str (unique_field named_doc))"
    by code_simp
  have n: "items (empty_doc\<lparr>display_name := Some ''Tags''\<rparr>) = None"
    by code_simp
  have i: "items (empty_doc\<lparr>items := Some duplicate_names\<rparr>) = Some duplicate_names"
    by simp
  have v: "raised (validate_items empty_store
      (dict_update named_doc (empty_doc\<lparr>items := Some duplicate_names\<rparr>))) = None"
    by code_simp
  have c: "check_uniqueness ascii_case duplicate_names (the (get_str (unique_field named_doc)))
      = Inl (NotUnique (PStr ''A'') ''name'')"
    by code_simp
  from on_update_rechecks [OF t, of "empty_doc\<lparr>display_name := Some ''Tags''\<rparr>" ascii_case empty_store] n
  have 1: "on_update ascii_case empty_store (empty_doc\<lparr>display_name := Some ''Tags''\<rparr>) named_doc = Inr ()"
    by blast
  from on_update_rechecks [OF t, of "empty_doc\<lparr>items := Some duplicate_names\<rparr>" ascii_case empty_store] i
  have "on_update ascii_case empty_store (empty_doc\<lparr>items := Some duplicate_names\<rparr>) named_doc
      = (case raised (validate_items empty_store
            (dict_update named_doc (empty_doc\<lparr>items := Some duplicate_names\<rparr>))) of
                  Some e \<Rightarrow> Inl e
                | None \<Rightarrow> check_uniqueness ascii_case duplicate_names (the (get_str (unique_field named_doc))))"
    by blast
  then have 2: "on_update ascii_case empty_store (empty_doc\<lparr>items := Some duplicate_names\<rparr>) named_doc
       = Inl (NotUnique (PStr ''A'') ''name'')"
    by (simp only: v c option.case)
  from 1 2 show ?thesis by (rule conjI)
qed

text \<open>
  C3 as stated fails: an update without \<open>items\<close> of a document whose own items
  hold a duplicate is accepted, where a check of the original's items would raise.
\<close>

theorem on_update_original_items_counterexample:
  "get_str (unique_field named_doc) = Some ''name''
   \<and> items named_doc = Some duplicate_names
   \<and> items (empty_doc\<lparr>display_name := Some ''Tags''\<rparr>) = None
   \<and> on_update ascii_case empty_store (empty_doc\<lparr>display_name := Some ''Tags''\<rparr>) named_doc = Inr ()
   \<and> check_uniqueness ascii_case duplicate_names ''name'' = Inl (NotUnique (PStr ''A'') ''name'')"
  by code_simp

subsection \<open>Reserved and deleted ids\<close>

lemma on_create_rejects_any:
  assumes "doc \<in> set docs" and "vid doc = Some i"
    and "(truthy_str (get_str (field_type doc)) \<and> i \<in> system_keys) \<or> find_one_deleted st i \<noteq> None"
  shows "\<exists>e. on_create system_keys st docs = Inl e"
  using assms(1)
proof (induction docs)
  case Nil
  then show ?case by simp
next
  case (Cons d ds)
  show ?case
  proof (cases "d = doc")
    case True
    then show ?thesis using assms(2,3)
      by (auto simp: Let_def validate_keeps split: option.splits)
  next
    case False
    with Cons obtain e where "on_create system_keys st ds = Inl e" by auto
    then show ?thesis
      by (auto simp: Let_def split: option.splits)
  qed
qed

lemma on_create_each:
  "on_create system_keys st docs = Inr docs' \<Longrightarrow> doc \<in> set docs \<Longrightarrow>
     \<exists>doc'. on_create system_keys st [doc] = Inr [doc']"
proof (induction docs arbitrary: docs')
  case Nil
  then show ?case by simp
next
  case (Cons d ds)
  from Cons.prems(1) obtain ds' where ds': "on_create system_keys st ds = Inr ds'"
    by (auto simp: Let_def split: option.splits if_splits sum.splits)
  show ?case
  proof (cases "doc = d")
    case True
    with Cons.prems(1) show ?thesis
      by (auto simp: Let_def split: option.splits if_splits sum.splits)
  next
    case False
    with Cons.prems(2) have "doc \<in> set ds" by simp
    with Cons.IH [OF ds'] show ?thesis by blast
  qed
qed

lemma on_create_append:
  "on_create system_keys st (before @ docs) =
     (case on_create system_keys st before of
        Inl e \<Rightarrow> Inl e
      | Inr before' \<Rightarrow>
          (case on_create system_keys st docs of
             Inl e \<Rightarrow> Inl e
           | Inr docs' \<Rightarrow> Inr (before' @ docs')))"
  by (induction before) (auto simp: Let_def split: option.splits sum.splits)

text \<open>
  C7, as the code has it: \<open>on_create\<close> fails on every batch holding a document
  that carries a non-empty \<open>field_type\<close> and an id among the system keys, or whose
  id is that of a soft-deleted vocabulary, and so does \<open>post\<close>, which then stores
  nothing. When that document is reached (the documents before it in the batch are
  accepted) and passes validation, the error is the conflict on the reserved id, or
  else on the deleted id. A batch holding any document that \<open>on_create\<close> rejects on
  its own is rejected as a whole.
\<close>

theorem on_create_rejects:
  assumes "doc \<in> set docs" and "vid doc = Some i"
    and "(truthy_str (get_str (field_type doc)) \<and> i \<in> system_keys) \<or> find_one_deleted st i \<noteq> None"
  shows "(\<exists>e. on_create system_keys st docs = Inl e \<and> post system_keys st docs = Inl e)
     \<and> (\<forall>before before' rest.
          on_create system_keys st before = Inr before' \<and> raised (validate_items st doc) = None \<longrightarrow>
          on_create system_keys st (before @ doc # rest)
            = Inl (if truthy_str (get_str (field_type doc)) \<and> i \<in> system_keys
                   then IdInUse i else IdDeleted i)
          \<and> post system_keys st (before @ doc # rest)
            = Inl (if truthy_str (get_str (field_type doc)) \<and> i \<in> system_keys
                   then IdInUse i else IdDeleted i))
     \<and> (\<forall>batch. \<forall>d \<in> set batch. (\<exists>e. on_create system_keys st [d] = Inl e) \<longrightarrow>
          (\<exists>e. on_create system_keys st batch = Inl e \<and> post system_keys st batch = Inl e))"
proof (intro conjI)
  show "\<forall>batch. \<forall>d \<in> set batch. (\<exists>e. on_create system_keys st [d] = Inl e) \<longrightarrow>
          (\<exists>e. on_create system_keys st batch = Inl e \<and> post system_keys st batch = Inl e)"
  proof (intro allI ballI impI)
    fix batch d
    assume d: "d \<in> set batch" and "\<exists>e. on_create system_keys st [d] = Inl e"
    then obtain e where e: "on_create system_keys st [d] = Inl e" by blast
    have "\<exists>e'. on_create system_keys st batch = Inl e'"
    proof (cases "on_create system_keys st batch")
      case (Inl e')
      then show ?thesis by blast
    next
      case (Inr batch')
      from on_create_each [OF Inr d] e show ?thesis by simp
    qed
    then show "\<exists>e. on_create system_keys st batch = Inl e \<and> post system_keys st batch = Inl e"
      by (auto simp: post_def)
  qed
  from on_create_rejects_any [OF assms] obtain e where "on_create system_keys st docs = Inl e" ..
  then show "\<exists>e. on_create system_keys st docs = Inl e \<and> post system_keys st docs = Inl e"
    by (simp add: post_def)
  let ?E = "if truthy_str (get_str (field_type doc)) \<and> i \<in> system_keys
            then IdInUse i else IdDeleted i"
  show "\<forall>before before' rest.
          on_create system_keys st before = Inr before' \<and> raised (validate_items st doc) = None \<longrightarrow>
          on_create system_keys st (before @ doc # rest) = Inl ?E
          \<and> post system_keys st (before @ doc # rest) = Inl ?E"
  proof (intro allI impI)
    fix before before' rest
    assume h: "on_create system_keys st before = Inr before' \<and> raised (validate_items st doc) = None"
    have first: "on_create system_keys st (doc # rest) = Inl ?E"
      using h assms(2,3) by (auto simp: Let_def validate_keeps)
    have "on_create system_keys st (before @ doc # rest) = Inl ?E"
      unfolding on_create_append [of system_keys st before "doc # rest"] first
      using h by simp
    then show "on_create system_keys st (before @ doc # rest) = Inl ?E
          \<and> post system_keys st (before @ doc # rest) = Inl ?E"
      by (simp add: post_def)
  qed
qed

theorem on_create_rejects_witness:
  "on_create {''slugline'', ''headline''} deleted_store
      [slugline_doc, slugline_doc\<lparr>field_type := Some (Some ''text'')\<rparr>] = Inl (IdInUse ''slugline'')
   \<and> on_create {''slugline'', ''headline''} deleted_store
      [slugline_doc, empty_doc\<lparr>vid := Some ''old''\<rparr>] = Inl (IdDeleted ''old'')"
proof -
  let ?sk = "{''slugline'', ''headline''}"
  let ?d = "slugline_doc\<lparr>field_type := Some (Some ''text'')\<rparr>"
  let ?o = "empty_doc\<lparr>vid := Some ''old''\<rparr>"
  have 1: "?d \<in> set [slugline_doc, ?d]" by simp
  have 2: "vid ?d = Some ''slugline''" by (simp add: slugline_doc_def empty_doc_def)
  have 3: "truthy_str (get_str (field_type ?d)) \<and> ''slugline'' \<in> ?sk"
    by (simp add: get_str_def truthy_str_def)
  have 4: "?o \<in> set [slugline_doc, ?o]" by simp
  have 5: "vid ?o = Some ''old''" by (simp add: empty_doc_def)
  have 6: "\<not> (truthy_str (get_str (field_type ?o)) \<and> ''old'' \<in> ?sk)"
    by (simp add: empty_doc_def get_str_def truthy_str_def)
  have dl: "find_one_deleted deleted_store ''old'' \<noteq> None"
    by (simp add: find_one_deleted_def deleted_store_def empty_doc_def)
  have 7: "raised (validate_items deleted_store ?o) = None"
    by (simp add: validate_items_def setdefault_unique_field_def empty_doc_def Let_def)
  have vd: "raised (validate_items deleted_store ?d) = None"
    by (simp add: validate_items_def setdefault_unique_field_def slugline_doc_def empty_doc_def
        Let_def)
  have b: "on_create ?sk deleted_store [slugline_doc] = Inr [slugline_doc]"
    by (simp add: slugline_doc_def empty_doc_def deleted_store_def validate_items_def
      setdefault_unique_field_def Let_def get_str_def truthy_str_def find_one_deleted_def)
  from on_create_rejects [OF 1 2] 3 b vd
  have "on_create ?sk deleted_store ([slugline_doc] @ ?d # [])
      = Inl (if truthy_str (get_str (field_type ?d)) \<and> ''slugline'' \<in> ?sk
             then IdInUse ''slugline'' else IdDeleted ''slugline'')"
    by blast
  then have 8: "on_create ?sk deleted_store [slugline_doc, ?d] = Inl (IdInUse ''slugline'')"
    using 3 by simp
  from on_create_rejects [OF 4 5] dl b 7
  have "on_create ?sk deleted_store ([slugline_doc] @ ?o # [])
      = Inl (if truthy_str (get_str (field_type ?o)) \<and> ''old'' \<in> ?sk
             then IdInUse ''old'' else IdDeleted ''old'')"
    by blast
  then have 9: "on_create ?sk deleted_store [slugline_doc, ?o] = Inl (IdDeleted ''old'')"
    using 6 by simp
  from 8 9 show ?thesis by (rule conjI)
qed

text \<open>
  C7 as stated fails: a document without \<open>field_type\<close> whose id is a system key is
  accepted.
\<close>

theorem on_create_system_key_counterexample:
  "vid slugline_doc = Some ''slugline'' \<and> ''slugline'' \<in> {''slugline'', ''headline''}
   \<and> on_create {''slugline'', ''headline''} empty_store [slugline_doc] = Inr [slugline_doc]"
  by (simp add: slugline_doc_def empty_doc_def empty_store_def validate_items_def
      setdefault_unique_field_def Let_def get_str_def truthy_str_def find_one_deleted_def)

subsection \<open>Lookups of linked vocabularies\<close>

text \<open>
  C4: the cache test is \<open>if not vocabs.get(...)\<close>, so a linked vocabulary that
  resolves to no value (it is missing, or has no items) is looked up again for every
  item that reaches the rule. Here two items, neither with the linked field, cost two
  lookups of the same vocabulary.
\<close>

theorem validate_items_lookups_twice:
  "raised (validate_items empty_store country_doc) = None
   \<and> lookups (validate_items empty_store country_doc) = [''countries'', ''countries'']"
  by code_simp

subsection \<open>Reading the items of a vocabulary\<close>

lemma map_of_dict_set: "map_of (dict_set d k v) = (map_of d)(k \<mapsto> v)"
  by (induction d) (auto simp: fun_eq_iff)

lemma map_of_dict_del: "map_of (dict_del d k) = (map_of d)(k := None)"
  unfolding dict_del_def by (induction d) (auto simp: fun_eq_iff)

lemma format_item_keys:
  "map_of (format_item i item) k =
     (if k = ''scheme'' then Some (PStr i) else if k = ''is_active'' then None else map_of item k)"
  by (simp add: format_item_def map_of_dict_set map_of_dict_del)

text \<open>
  C6: \<open>get_items(_id, is_active=...)\<close>, with no \<open>qcode\<close> and no \<open>name\<close>, returns
  the empty list when the store finds no vocabulary or the vocabulary has no key
  \<open>items\<close>; otherwise it returns, in order, the items whose \<open>is_active\<close> (absent:
  \<open>True\<close>) equals the requested value, each without the key \<open>is_active\<close>, with
  \<open>scheme\<close> set to the vocabulary id and every other key as stored.
\<close>

theorem get_items_is_active:
  "(mongo i [] = [] \<longrightarrow> get_items mongo i None is_active None None = [])
   \<and> (\<forall>d ds. mongo i [] = d # ds \<and> items d = None \<longrightarrow>
         get_items mongo i None is_active None None = [])
   \<and> (\<forall>d ds its b. mongo i [] = d # ds \<and> items d = Some its \<longrightarrow>
         get_items mongo i None (Some b) None None
           = map (format_item i) (filter (is_active_equals b) its)
         \<and> (\<forall>r \<in> set (get_items mongo i None (Some b) None None).
               \<not> has_key r ''is_active'' \<and> map_of r ''scheme'' = Some (PStr i)
               \<and> (\<exists>item \<in> set its. is_active_equals b item
                     \<and> (\<forall>k. k \<noteq> ''is_active'' \<and> k \<noteq> ''scheme'' \<longrightarrow> map_of r k = map_of item k))))"
proof (intro conjI allI impI ballI)
  show "get_items mongo i None is_active None None = []" if "mongo i [] = []"
    using that by (simp add: get_items_def truthy_str_def)
  show "get_items mongo i None is_active None None = []"
    if "mongo i [] = d # ds \<and> items d = None" for d ds
    using that by (simp add: get_items_def truthy_str_def)
  fix d ds its b
  assume a: "mongo i [] = d # ds \<and> items d = Some its"
  then show eq: "get_items mongo i None (Some b) None None
           = map (format_item i) (filter (is_active_equals b) its)"
    by (simp add: get_items_def truthy_str_def is_active_equals_def [abs_def])
  fix r
  assume "r \<in> set (get_items mongo i None (Some b) None None)"
  then obtain item where item: "item \<in> set its" "is_active_equals b item" "r = format_item i item"
    unfolding eq by auto
  show "\<not> has_key r ''is_active''"
    by (simp add: item(3) has_key_def format_item_keys)
  show "map_of r ''scheme'' = Some (PStr i)"
    by (simp add: item(3) format_item_keys)
  show "\<exists>item \<in> set its. is_active_equals b item
                     \<and> (\<forall>k. k \<noteq> ''is_active'' \<and> k \<noteq> ''scheme'' \<longrightarrow> map_of r k = map_of item k)"
    using item by (auto simp: format_item_keys)
qed

theorem get_items_is_active_witness:
  "get_items languages_mongo ''missing'' None (Some True) None None = []
   \<and> get_items languages_mongo ''languages'' None (Some True) None None
       = [[(''name'', PStr ''English''), (''scheme'', PStr ''languages'')]]"
proof -
  have 1: "languages_mongo ''missing'' [] = []" by code_simp
  have 2: "languages_mongo ''languages'' [] = [languages_doc] \<and> items languages_doc =
     Some [[(''name'', PStr ''English''), (''is_active'', PBool True)],
                    [(''name'', PStr ''Dead''), (''is_active'', PBool False)]]" by code_simp
  have 3: "map (format_item ''languages'') (filter (is_active_equals True)
      [[(''name'', PStr ''English''), (''is_active'', PBool True)],
                    [(''name'', PStr ''Dead''), (''is_active'', PBool False)]])
       = [[(''name'', PStr ''English''), (''scheme'', PStr ''languages'')]]"
    by code_simp
  from get_items_is_active [of languages_mongo "''missing''" "Some True"] 1
  have a: "get_items languages_mongo ''missing'' None (Some True) None None = []" by blast
  from get_items_is_active [of languages_mongo "''languages''" "Some True"] 2
  have "get_items languages_mongo ''languages'' None (Some True) None None
           = map (format_item ''languages'') (filter (is_active_equals True)
      [[(''name'', PStr ''English''), (''is_active'', PBool True)],
                    [(''name'', PStr ''Dead''), (''is_active'', PBool False)]])" by blast
  with 3 a show ?thesis by simp
qed

subsection \<open>Uniqueness\<close>










subsection \<open>Keyword merger\<close>

lemma validate_fields_keyword_item:
  "keyword \<noteq> [] \<Longrightarrow>
   validate_fields st (Some ''name'') index (keyword_item keyword)
     [(''name'', empty_desc), (''qcode'', empty_desc)] vocabs calls = (vocabs, calls, None)"
  by (simp add: keyword_item_def empty_desc_def has_key_def dict_get_def truthy_str_def)

lemma validate_loop_keyword_items:
  "[] \<notin> set kws \<Longrightarrow>
   validate_loop st (Some ''name'') [(''name'', empty_desc), (''qcode'', empty_desc)] index
     (map keyword_item kws) vocabs calls = (calls, None)"
proof (induction kws arbitrary: index)
  case Nil
  then show ?case by simp
next
  case (Cons k ks)
  then have "k \<noteq> []" and "[] \<notin> set ks" by auto
  then show ?case using Cons.IH
    by (simp add: validate_fields_keyword_item del: validate_fields.simps)
qed

lemma validate_keywords_cv:
  assumes "[] \<notin> set kws"
  shows "raised (validate_items st (keywords_cv kws)) = None"
    and "updated (validate_items st (keywords_cv kws)) = keywords_cv kws"
proof -
  have s: "setdefault_unique_field (keywords_cv kws) = keywords_cv kws"
    by (simp add: setdefault_unique_field_def keywords_cv_def)
  show "updated (validate_items st (keywords_cv kws)) = keywords_cv kws"
    by (simp add: updated_validate_items s)
  show "raised (validate_items st (keywords_cv kws)) = None"
    unfolding validate_items_def Let_def s
    using validate_loop_keyword_items [OF assms, of st 0 "[]" "[]"]
    by (simp add: keywords_cv_def get_str_def)
qed

lemma post_keywords_cv:
  assumes "collection st KEYWORDS_CV = None" and "[] \<notin> set kws"
  shows "post system_keys st [keywords_cv kws] =
     Inr (st\<lparr>collection := (collection st)(KEYWORDS_CV \<mapsto> keywords_cv kws),
             notifications := notifications st
               @ [(''vocabularies:created'', Some ''Keywords'', KEYWORDS_CV)]\<rparr>)"
proof -
  have v: "vid (keywords_cv kws) = Some KEYWORDS_CV"
    and f: "field_type (keywords_cv kws) = None"
    and n: "display_name (keywords_cv kws) = Some ''Keywords''"
    by (simp_all add: keywords_cv_def)
  have oc: "on_create system_keys st [keywords_cv kws] = Inr [keywords_cv kws]"
    using assms(1)
    by (simp add: Let_def validate_keywords_cv [OF assms(2)] v f get_str_def truthy_str_def
        find_one_deleted_def)
  show ?thesis
    unfolding post_def oc using assms(1)
    by (simp add: v n send_notification_def)
qed

lemma existing_names_append:
  "existing_names tc (its @ map keyword_item ms) =
     (case existing_names tc its of Inl e \<Rightarrow> Inl e | Inr ns \<Rightarrow> Inr (ns @ map (lower tc) ms))"
proof (induction its)
  case Nil
  show ?case by (induction ms) (simp_all add: keyword_item_def)
next
  case (Cons item its)
  then show ?case
    by (simp split: option.splits pyval.splits sum.splits)
qed

lemma existing_names_set:
  "existing_names tc its = Inr ns \<Longrightarrow> ns = map (\<lambda>item. lower tc (name_of item)) its"
  by (induction its arbitrary: ns)
     (auto simp: name_of_def split: option.splits pyval.splits sum.splits)

lemma filter_missing_again:
  "filter (\<lambda>k. lower tc k \<notin> set (ns @ map (lower tc) (filter (\<lambda>k. lower tc k \<notin> set ns) ks))) ks = []"
  by (auto simp: filter_empty_conv)

lemma add_missing_keywords_none_missing:
  assumes "kws \<noteq> []" and "find_one st KEYWORDS_CV = Some cv"
    and "existing_names tc (items_of cv) = Inr ns"
    and "filter (\<lambda>k. lower tc k \<notin> set ns) kws = []"
  shows "add_missing_keywords tc system_keys st kws = Inr st"
  using assms by (simp add: add_missing_keywords_def Let_def)

lemma add_missing_keywords_existing:
  assumes k: "kws \<noteq> []" and f: "find_one st KEYWORDS_CV = Some cv" and w: "wf_store st"
    and r: "add_missing_keywords tc system_keys st kws = Inr st'"
  shows "\<exists>ns. existing_names tc (items_of cv) = Inr ns \<and>
     (let missing = filter (\<lambda>k. lower tc k \<notin> set ns) kws
      in if missing = [] then st' = st
         else st' = st\<lparr>collection := (collection st)(KEYWORDS_CV \<mapsto>
                         dict_update cv (empty_doc\<lparr>items := Some (items_of cv @ map keyword_item missing)\<rparr>)),
                       notifications := notifications st
                         @ [(''vocabularies:updated'', display_name cv, KEYWORDS_CV)]\<rparr>)"
proof -
  from f have c: "collection st KEYWORDS_CV = Some cv"
    by (auto simp: find_one_def split: option.splits if_splits)
  with w have v: "vid cv = Some KEYWORDS_CV" by (auto simp: wf_store_def)
  from r k f obtain ns where ns: "existing_names tc (items_of cv) = Inr ns"
    by (auto simp: add_missing_keywords_def Let_def split: sum.splits)
  let ?missing = "filter (\<lambda>k. lower tc k \<notin> set ns) kws"
  show ?thesis
  proof (cases "?missing = []")
    case True
    with r k f ns have "st' = st"
      by (simp add: add_missing_keywords_def Let_def)
    with ns True show ?thesis by (simp add: Let_def)
  next
    case False
    let ?updates = "empty_doc\<lparr>items := Some (items_of cv @ map keyword_item ?missing)\<rparr>"
    let ?original = "case items cv of None \<Rightarrow> cv
       | Some _ \<Rightarrow> cv\<lparr>items := Some (items_of cv @ map keyword_item ?missing)\<rparr>"
    have vo: "vid ?original = Some KEYWORDS_CV" and dn: "display_name ?original = display_name cv"
      using v by (simp_all split: option.splits)
    have a: "add_missing_keywords tc system_keys st kws =
        (case on_update tc st ?updates ?original of Inl e \<Rightarrow> Inl e
          | Inr _ \<Rightarrow> (case vid ?original of None \<Rightarrow> Inl (KeyError ''_id'')
              | Some i \<Rightarrow> on_updated (system_update st i ?updates) ?updates ?original))"
      using k f ns False
      by (simp add: add_missing_keywords_def Let_def)
    have "on_updated (system_update st KEYWORDS_CV ?updates) ?updates ?original = Inr st'"
      using r unfolding a vo by (simp split: sum.splits)
    then have "st' = st\<lparr>collection := (collection st)(KEYWORDS_CV \<mapsto> dict_update cv ?updates),
                       notifications := notifications st
                         @ [(''vocabularies:updated'', display_name cv, KEYWORDS_CV)]\<rparr>"
      by (simp add: on_updated_def send_notification_def vo dn system_update_def c)
    with ns False show ?thesis by (simp add: Let_def)
  qed
qed

lemma add_missing_keywords_idempotent:
  assumes w: "wf_store st" and r: "add_missing_keywords tc system_keys st kws = Inr st'"
  shows "add_missing_keywords tc system_keys st' kws = Inr st'"
proof (cases "kws = []")
  case True
  then show ?thesis by (simp add: add_missing_keywords_def)
next
  case k: False
  show ?thesis
  proof (cases "find_one st KEYWORDS_CV")
    case None
    with r k have p: "post system_keys st [keywords_cv kws] = Inr st'"
      by (simp add: add_missing_keywords_def)
    have v: "vid (keywords_cv kws) = Some KEYWORDS_CV" by (simp add: keywords_cv_def)
    have c: "collection st' KEYWORDS_CV = Some (updated (validate_items st (keywords_cv kws)))"
      using p v by (rule post_single)
    have u: "updated (validate_items st (keywords_cv kws)) = keywords_cv kws"
      by (simp add: updated_validate_items setdefault_unique_field_def keywords_cv_def)
    have f: "find_one st' KEYWORDS_CV = Some (keywords_cv kws)"
      using c unfolding u by (simp add: find_one_def keywords_cv_def)
    have e: "existing_names tc (items_of (keywords_cv kws)) = Inr (map (lower tc) kws)"
      using existing_names_append [of tc "[]" kws] by (simp add: items_of_def keywords_cv_def)
    have m: "filter (\<lambda>k. lower tc k \<notin> set (map (lower tc) kws)) kws = []"
      by (auto simp: filter_empty_conv)
    show ?thesis
      using k f e m by (rule add_missing_keywords_none_missing)
  next
    case (Some cv)
    from add_missing_keywords_existing [OF k Some w r] obtain ns
      where ns: "existing_names tc (items_of cv) = Inr ns"
        and st': "let missing = filter (\<lambda>k. lower tc k \<notin> set ns) kws
      in if missing = [] then st' = st
         else st' = st\<lparr>collection := (collection st)(KEYWORDS_CV \<mapsto>
                         dict_update cv (empty_doc\<lparr>items := Some (items_of cv @ map keyword_item missing)\<rparr>)),
                       notifications := notifications st
                         @ [(''vocabularies:updated'', display_name cv, KEYWORDS_CV)]\<rparr>"
      by blast
    let ?missing = "filter (\<lambda>k. lower tc k \<notin> set ns) kws"
    show ?thesis
    proof (cases "?missing = []")
      case True
      with st' have "st' = st" by (simp add: Let_def)
      with r show ?thesis by simp
    next
      case False
      let ?cv' = "dict_update cv (empty_doc\<lparr>items := Some (items_of cv @ map keyword_item ?missing)\<rparr>)"
      from st' False have c: "collection st' KEYWORDS_CV = Some ?cv'" by (simp add: Let_def)
      from Some have d: "deleted cv \<noteq> Some True"
        by (auto simp: find_one_def split: option.splits if_splits)
      have d': "deleted ?cv' = deleted cv" and i': "items ?cv' = Some (items_of cv @ map keyword_item ?missing)"
        by (simp_all add: dict_update_def empty_doc_def)
      have f: "find_one st' KEYWORDS_CV = Some ?cv'"
        using c d unfolding find_one_def by (simp add: d')
      have "items_of ?cv' = items_of cv @ map keyword_item ?missing"
        using i' by (simp add: items_of_def [of ?cv'])
      then have e: "existing_names tc (items_of ?cv') = Inr (ns @ map (lower tc) ?missing)"
        by (simp add: existing_names_append ns)
      show ?thesis
        using k f e filter_missing_again by (rule add_missing_keywords_none_missing)
    qed
  qed
qed

lemma add_missing_keywords_creates:
  assumes "collection st KEYWORDS_CV = None" and "kws \<noteq> []" and "[] \<notin> set kws"
  shows "\<exists>st'. add_missing_keywords tc system_keys st kws = Inr st'
     \<and> find_one st' KEYWORDS_CV = Some (keywords_cv kws)"
proof -
  have f: "find_one st KEYWORDS_CV = None" using assms(1) by (simp add: find_one_def)
  have "add_missing_keywords tc system_keys st kws = post system_keys st [keywords_cv kws]"
    using assms(2) f by (simp add: add_missing_keywords_def)
  also note post_keywords_cv [OF assms(1,3)]
  finally show ?thesis
    by (simp add: find_one_def keywords_cv_def)
qed

lemma add_missing_keywords_appends:
  assumes w: "wf_store st" and f: "find_one st KEYWORDS_CV = Some cv"
    and r: "add_missing_keywords tc system_keys st kws = Inr st'"
  shows "\<exists>cv' new. find_one st' KEYWORDS_CV = Some cv'
     \<and> items_of cv' = items_of cv @ map keyword_item new \<and> set new \<subseteq> set kws
     \<and> (\<forall>k \<in> set new. \<forall>item \<in> set (items_of cv). lower tc (name_of item) \<noteq> lower tc k)"
proof (cases "kws = []")
  case True
  with r have "st' = st" by (simp add: add_missing_keywords_def)
  with f have "find_one st' KEYWORDS_CV = Some cv
     \<and> items_of cv = items_of cv @ map keyword_item [] \<and> set [] \<subseteq> set kws
     \<and> (\<forall>k \<in> set []. \<forall>item \<in> set (items_of cv). lower tc (name_of item) \<noteq> lower tc k)"
    by simp
  then show ?thesis by blast
next
  case k: False
  from add_missing_keywords_existing [OF k f w r] obtain ns
    where ns: "existing_names tc (items_of cv) = Inr ns"
      and st': "let missing = filter (\<lambda>k. lower tc k \<notin> set ns) kws
      in if missing = [] then st' = st
         else st' = st\<lparr>collection := (collection st)(KEYWORDS_CV \<mapsto>
                         dict_update cv (empty_doc\<lparr>items := Some (items_of cv @ map keyword_item missing)\<rparr>)),
                       notifications := notifications st
                         @ [(''vocabularies:updated'', display_name cv, KEYWORDS_CV)]\<rparr>"
    by blast
  let ?missing = "filter (\<lambda>k. lower tc k \<notin> set ns) kws"
  have nsd: "ns = map (\<lambda>item. lower tc (name_of item)) (items_of cv)"
    using ns by (rule existing_names_set)
  have fresh: "\<forall>k \<in> set ?missing. \<forall>item \<in> set (items_of cv). lower tc (name_of item) \<noteq> lower tc k"
    unfolding nsd by (auto simp: image_iff)
  show ?thesis
  proof (cases "?missing = []")
    case True
    with st' have "st' = st" by (simp add: Let_def)
    with f have "find_one st' KEYWORDS_CV = Some cv
     \<and> items_of cv = items_of cv @ map keyword_item [] \<and> set [] \<subseteq> set kws
     \<and> (\<forall>k \<in> set []. \<forall>item \<in> set (items_of cv). lower tc (name_of item) \<noteq> lower tc k)"
      by simp
    then show ?thesis by blast
  next
    case False
    let ?cv' = "dict_update cv (empty_doc\<lparr>items := Some (items_of cv @ map keyword_item ?missing)\<rparr>)"
    from st' False have c: "collection st' KEYWORDS_CV = Some ?cv'" by (simp add: Let_def)
    from f have d: "deleted cv \<noteq> Some True"
      by (auto simp: find_one_def split: option.splits if_splits)
    have d': "deleted ?cv' = deleted cv"
      and i': "items ?cv' = Some (items_of cv @ map keyword_item ?missing)"
      by (simp_all add: dict_update_def empty_doc_def)
    have f': "find_one st' KEYWORDS_CV = Some ?cv'"
      using c d unfolding find_one_def by (simp add: d')
    have io: "items_of ?cv' = items_of cv @ map keyword_item ?missing"
      using i' by (simp add: items_of_def [of ?cv'])
    have "set ?missing \<subseteq> set kws" by auto
    with f' io fresh show ?thesis by blast
  qed
qed

text \<open>
  C1: on a store without the vocabulary, the keywords \<open>Paris\<close>, \<open>paris\<close>,
  \<open>London\<close> create it with three items, not two: the create branch makes one item
  per input keyword and tests nothing. The vocabulary is stored with
  \<open>unique_field = "name"\<close>, which its own items break: a later call that has a
  keyword to add (here \<open>Rome\<close>) fails the uniqueness check of the update path, and
  the same three keywords, given when the vocabulary exists and is empty, are refused
  by that check. Repeating the first call changes nothing.
\<close>

theorem add_missing_keywords_case_variants:
  "add_missing_keywords ascii_case {} empty_store three_keywords = Inr created_store
   \<and> find_one created_store KEYWORDS_CV = Some (keywords_cv three_keywords)
   \<and> unique_field (keywords_cv three_keywords) = Some (Some ''name'')
   \<and> map name_of (items_of (keywords_cv three_keywords)) = [''Paris'', ''paris'', ''London'']
   \<and> add_missing_keywords ascii_case {} created_store three_keywords = Inr created_store
   \<and> add_missing_keywords ascii_case {} created_store [''Rome'']
       = Inl (NotUnique (PStr ''paris'') ''name'')
   \<and> add_missing_keywords ascii_case {} empty_keywords_store three_keywords
       = Inl (NotUnique (PStr ''paris'') ''name'')"
proof -
  have c: "collection empty_store KEYWORDS_CV = None" by (simp add: empty_store_def)
  have k: "three_keywords \<noteq> []" "[] \<notin> set three_keywords" by (simp_all add: three_keywords_def)
  have f: "find_one empty_store KEYWORDS_CV = None" by (simp add: find_one_def c)
  have "add_missing_keywords ascii_case {} empty_store three_keywords
      = post {} empty_store [keywords_cv three_keywords]"
    using k(1) f by (simp add: add_missing_keywords_def)
  also have "\<dots> = Inr (empty_store\<lparr>collection :=
        (collection empty_store)(KEYWORDS_CV \<mapsto> keywords_cv three_keywords),
      notifications := notifications empty_store
        @ [(''vocabularies:created'', Some ''Keywords'', KEYWORDS_CV)]\<rparr>)"
    using c k(2) by (rule post_keywords_cv)
  also have "\<dots> = Inr created_store"
    by (simp add: empty_store_def created_store_def KEYWORDS_CV_def fun_eq_iff)
  finally have 1: "add_missing_keywords ascii_case {} empty_store three_keywords = Inr created_store" .
  have 2: "find_one created_store KEYWORDS_CV = Some (keywords_cv three_keywords)"
    by (simp add: find_one_def created_store_def KEYWORDS_CV_def keywords_cv_def)
  have 3: "unique_field (keywords_cv three_keywords) = Some (Some ''name'')"
    by (simp add: keywords_cv_def)
  have 4: "map name_of (items_of (keywords_cv three_keywords)) = [''Paris'', ''paris'', ''London'']"
    by code_simp
  have w: "wf_store empty_store" by (simp add: wf_store_def empty_store_def)
  have 5: "add_missing_keywords ascii_case {} created_store three_keywords = Inr created_store"
    using w 1 by (rule add_missing_keywords_idempotent)
  have "(case add_missing_keywords ascii_case {} created_store [''Rome''] of
           Inl e \<Rightarrow> Some e | Inr st' \<Rightarrow> None) = Some (NotUnique (PStr ''paris'') ''name'')"
    by code_simp
  then have 6: "add_missing_keywords ascii_case {} created_store [''Rome'']
       = Inl (NotUnique (PStr ''paris'') ''name'')"
    by (simp split: sum.splits)
  have "(case add_missing_keywords ascii_case {} empty_keywords_store three_keywords of
           Inl e \<Rightarrow> Some e | Inr st' \<Rightarrow> None) = Some (NotUnique (PStr ''paris'') ''name'')"
    by code_simp
  then have 7: "add_missing_keywords ascii_case {} empty_keywords_store three_keywords
       = Inl (NotUnique (PStr ''paris'') ''name'')"
    by (simp split: sum.splits)
  from 1 2 3 4 5 6 7 show ?thesis by blast
qed

subsection \<open>Locale resolver\<close>

lemma map_of_dict_set': "map_of (dict_set d k v) k' = (if k' = k then Some v else map_of d k')"
  by (simp add: map_of_dict_set)

lemma overlay_fields_resolves:
  assumes "distinct (map fst tr)" and "list_all (\<lambda>(field, values). is_dict values) tr"
  shows "\<exists>r. overlay_fields language tr item = Inr r
     \<and> (\<forall>k. map_of r k =
           (case map_of item k of
              None \<Rightarrow> None
            | Some v \<Rightarrow> (case translated tr language k of None \<Rightarrow> Some v | Some t \<Rightarrow> Some t)))"
  using assms
proof (induction tr arbitrary: item)
  case Nil
  then show ?case by (simp add: translated_def split: option.splits)
next
  case (Cons p rest)
  obtain f v where p: "p = (f, v)" by (cases p)
  from Cons.prems p obtain vs where v: "v = PDict vs" 
    by (auto simp: is_dict_def split: pyval.splits)
  from Cons.prems p have fresh: "map_of rest f = None" and d: "distinct (map fst rest)"
    and l: "list_all (\<lambda>(field, values). is_dict values) rest"
    by (auto simp: map_of_eq_None_iff)
  have tf: "translated rest language f = None" by (simp add: translated_def fresh)
  have tk: "translated (p # rest) language k = translated rest language k" if "k \<noteq> f" for k
    using that by (simp add: translated_def p)
  have tff: "translated (p # rest) language f = map_of vs language"
    by (simp add: translated_def p v)
  show ?case
  proof (cases "has_key item f \<and> has_key vs language")
    case True
    then obtain t where t: "map_of vs language = Some t" by (auto simp: has_key_def)
    from True obtain w where w: "map_of item f = Some w" by (auto simp: has_key_def)
    let ?item = "dict_set item f t"
    from Cons.IH [OF d l, of ?item] obtain r where r: "overlay_fields language rest ?item = Inr r"
      and rk: "\<And>k. map_of r k =
           (case map_of ?item k of
              None \<Rightarrow> None
            | Some v \<Rightarrow> (case translated rest language k of None \<Rightarrow> Some v | Some t \<Rightarrow> Some t))"
      by blast
    have o: "overlay_fields language (p # rest) item = Inr r"
      using True r t by (simp add: p v dict_get_def)
    have "map_of r k =
           (case map_of item k of
              None \<Rightarrow> None
            | Some v \<Rightarrow> (case translated (p # rest) language k of None \<Rightarrow> Some v | Some t \<Rightarrow> Some t))"
      for k
    proof (cases "k = f")
      case True
      then show ?thesis by (simp add: rk map_of_dict_set' tf tff t w cong: option.case_cong)
    next
      case False
      then show ?thesis by (simp add: rk map_of_dict_set' tk cong: option.case_cong)
    qed
    with o show ?thesis by blast
  next
    case False
    from Cons.IH [OF d l, of item] obtain r where r: "overlay_fields language rest item = Inr r"
      and rk: "\<And>k. map_of r k =
           (case map_of item k of
              None \<Rightarrow> None
            | Some v \<Rightarrow> (case translated rest language k of None \<Rightarrow> Some v | Some t \<Rightarrow> Some t))"
      by blast
    have o: "overlay_fields language (p # rest) item = Inr r"
      using False r by (auto simp: p v)
    have "map_of r k =
           (case map_of item k of
              None \<Rightarrow> None
            | Some v \<Rightarrow> (case translated (p # rest) language k of None \<Rightarrow> Some v | Some t \<Rightarrow> Some t))"
      for k
    proof (cases "k = f")
      case True
      with False show ?thesis
        by (auto simp: rk tf tff has_key_def split: option.splits)
    next
      case False
      then show ?thesis by (simp add: rk tk cong: option.case_cong)
    qed
    with o show ?thesis by blast
  qed
qed

lemma resolved_without_translations:
  "\<not> has_key item ''translations'' \<Longrightarrow> resolved language item item"
  by (simp add: resolved_def translation_def has_key_def split: option.splits)

lemma resolved_overlay:
  assumes "translations_ok item" and "map_of item ''translations'' = Some (PDict tr)"
  shows "\<exists>new_item. overlay_fields language tr item = Inr new_item
     \<and> resolved language item new_item"
proof -
  from assms have "distinct (map fst tr)" and "list_all (\<lambda>(field, values). is_dict values) tr"
    by (simp_all add: translations_ok_def)
  have t: "translation language item field = translated tr language field" for field
    using assms(2) by (simp add: translation_def)
  from overlay_fields_resolves [OF \<open>distinct (map fst tr)\<close>
      \<open>list_all (\<lambda>(field, values). is_dict values) tr\<close>, of language item]
  show ?thesis unfolding resolved_def t .
qed

lemma translations_ok_dict:
  "translations_ok item \<Longrightarrow> has_key item ''translations'' \<Longrightarrow>
     \<exists>tr. map_of item ''translations'' = Some (PDict tr)"
  by (auto simp: translations_ok_def has_key_def split: option.splits pyval.splits)

lemma locale_loop_correct:
  assumes "out < length (lists h)"
    and "\<forall>r \<in> set refs. r < length (dicts h0) \<and> translations_ok (dicts h0 ! r)"
    and "\<exists>extra. dicts h = dicts h0 @ extra"
  shows "\<exists>h' news. locale_loop language out refs h = Inr h'
     \<and> lists h' = (lists h)[out := lists h ! out @ news]
     \<and> (\<exists>extra. dicts h' = dicts h @ extra)
     \<and> list_all2 (localised language h0 h') refs news"
  using assms
proof (induction refs arbitrary: h)
  case Nil
  have "lists h = (lists h)[out := lists h ! out @ []]" by simp
  then show ?case by auto
next
  case (Cons r rest)
  from Cons.prems obtain extra where extra: "dicts h = dicts h0 @ extra" by blast
  from Cons.prems have r: "r < length (dicts h0)" and ok: "translations_ok (dicts h0 ! r)"
    and rest: "\<forall>r \<in> set rest. r < length (dicts h0) \<and> translations_ok (dicts h0 ! r)"
    by auto
  have item: "dicts h ! r = dicts h0 ! r" using r by (simp add: extra nth_append)
  show ?case
  proof (cases "has_key (dicts h0 ! r) ''translations''")
    case False
    let ?h1 = "list_append h out r"
    have o1: "out < length (lists ?h1)" using Cons.prems(1) by (simp add: list_append_def)
    have d1: "\<exists>extra. dicts ?h1 = dicts h0 @ extra" using extra by (simp add: list_append_def)
    from Cons.IH [OF o1 rest d1] obtain h' news where
      l: "locale_loop language out rest ?h1 = Inr h'"
      and ls: "lists h' = (lists ?h1)[out := lists ?h1 ! out @ news]"
      and ds: "\<exists>extra. dicts h' = dicts ?h1 @ extra"
      and a2: "list_all2 (localised language h0 h') rest news"
      by blast
    have 1: "locale_loop language out (r # rest) h = Inr h'"
      using False l by (simp add: item Let_def)
    have 2: "lists h' = (lists h)[out := lists h ! out @ (r # news)]"
      using ls Cons.prems(1) by (simp add: list_append_def)
    from ds have 3: "\<exists>extra. dicts h' = dicts h @ extra" by (simp add: list_append_def)
    from 3 extra obtain e' where e': "dicts h' = dicts h0 @ e'" by auto
    have "localised language h0 h' r r"
      using False r by (simp add: localised_def e' nth_append resolved_without_translations)
    with a2 have 4: "list_all2 (localised language h0 h') (r # rest) (r # news)" by simp
    from 1 2 3 4 show ?thesis by blast
  next
    case True
    from translations_ok_dict [OF ok True] obtain tr
      where tr: "map_of (dicts h0 ! r) ''translations'' = Some (PDict tr)" by blast
    from resolved_overlay [OF ok tr, of language] obtain new_item
      where ov: "overlay_fields language tr (dicts h0 ! r) = Inr new_item"
        and res: "resolved language (dicts h0 ! r) new_item"
      by blast
    let ?n = "length (dicts h)"
    let ?h1 = "list_append (h\<lparr>dicts := dicts h @ [new_item]\<rparr>) out ?n"
    have o1: "out < length (lists ?h1)" using Cons.prems(1) by (simp add: list_append_def)
    have d1: "\<exists>extra. dicts ?h1 = dicts h0 @ extra" using extra by (simp add: list_append_def)
    from Cons.IH [OF o1 rest d1] obtain h' news where
      l: "locale_loop language out rest ?h1 = Inr h'"
      and ls: "lists h' = (lists ?h1)[out := lists ?h1 ! out @ news]"
      and ds: "\<exists>extra. dicts h' = dicts ?h1 @ extra"
      and a2: "list_all2 (localised language h0 h') rest news"
      by blast
    have 1: "locale_loop language out (r # rest) h = Inr h'"
      using True l ov tr by (simp add: item Let_def dict_get_def)
    have 2: "lists h' = (lists h)[out := lists h ! out @ (?n # news)]"
      using ls Cons.prems(1) by (simp add: list_append_def)
    from ds obtain e1 where e1: "dicts h' = dicts h @ new_item # e1"
      by (auto simp: list_append_def)
    then have 3: "\<exists>extra. dicts h' = dicts h @ extra" by blast
    have "localised language h0 h' r ?n"
      using True res by (simp add: localised_def e1 extra)
    with a2 have 4: "list_all2 (localised language h0 h') (r # rest) (?n # news)" by simp
    from 1 2 3 4 show ?thesis by blast
  qed
qed

text \<open>
  C5, as the code has it, for a list of items whose translations are well formed. The
  call returns, and no list or item object of the heap it started from is changed.
  When the list is empty or no language is given, the result is the input list itself.
  Otherwise it is a new list object, of the same length, whose item at each position is
  resolved from the input item at that position: every key that has a translation for
  the language holds that translation, every other key its value; an item without
  translations is passed through as the same object, an item with translations is
  a new object.
\<close>

theorem get_locale_vocabulary_resolves:
  assumes "a < length (lists h)"
    and "\<forall>r \<in> set (lists h ! a). r < length (dicts h) \<and> translations_ok (dicts h ! r)"
  shows "\<exists>h' b. get_locale_vocabulary h (Some a) language = Inr (h', Some b)
     \<and> take (length (lists h)) (lists h') = lists h
     \<and> take (length (dicts h)) (dicts h') = dicts h
     \<and> (if lists h ! a = [] \<or> \<not> truthy_str language then b = a \<and> h' = h
         else b = length (lists h) \<and> b < length (lists h')
           \<and> list_all2 (localised (the language) h h') (lists h ! a) (lists h' ! b))"
proof (cases "lists h ! a = [] \<or> \<not> truthy_str language")
  case True
  then have "get_locale_vocabulary h (Some a) language = Inr (h, Some a)"
    by (auto simp: get_locale_vocabulary_def)
  with True show ?thesis by simp
next
  case False
  let ?out = "length (lists h)"
  let ?h1 = "h\<lparr>lists := lists h @ [[]]\<rparr>"
  have o: "?out < length (lists ?h1)" by simp
  have r: "\<forall>r \<in> set (lists h ! a). r < length (dicts h) \<and> translations_ok (dicts h ! r)"
    by (rule assms(2))
  have d: "\<exists>extra. dicts ?h1 = dicts h @ extra" by simp
  from locale_loop_correct [OF o r d, of "the language"] obtain h' news where
    l: "locale_loop (the language) ?out (lists h ! a) ?h1 = Inr h'"
    and ls: "lists h' = (lists ?h1)[?out := lists ?h1 ! ?out @ news]"
    and ds: "\<exists>extra. dicts h' = dicts ?h1 @ extra"
    and a2: "list_all2 (localised (the language) h h') (lists h ! a) news"
    by blast
  have ls': "lists h' = lists h @ [news]" using ls by simp
  have 1: "get_locale_vocabulary h (Some a) language = Inr (h', Some ?out)"
    using False l by (simp add: get_locale_vocabulary_def Let_def)
  have 2: "take (length (lists h)) (lists h') = lists h" by (simp add: ls')
  have 3: "take (length (dicts h)) (dicts h') = dicts h" using ds by auto
  have 4: "?out < length (lists h')" by (simp add: ls')
  have 5: "list_all2 (localised (the language) h h') (lists h ! a) (lists h' ! ?out)"
    using a2 by (simp add: ls')
  from False 1 2 3 4 5 show ?thesis by simp
qed

theorem get_locale_vocabulary_resolves_witness:
  "(\<exists>h' b r. get_locale_vocabulary global_heap (Some 0) (Some ''fr'') = Inr (h', Some b)
      \<and> b = 1 \<and> lists h' ! b = [r] \<and> map_of (dicts h' ! r) ''name'' = Some (PStr ''Monde'')
      \<and> take 1 (lists h') = [[0]] \<and> take 1 (dicts h') = [global_item])
   \<and> (\<exists>h' b r. get_locale_vocabulary global_heap (Some 0) (Some ''de'') = Inr (h', Some b)
      \<and> b = 1 \<and> lists h' ! b = [r] \<and> map_of (dicts h' ! r) ''name'' = Some (PStr ''Global'')
      \<and> take 1 (lists h') = [[0]] \<and> take 1 (dicts h') = [global_item])"
proof -
  have a: "0 < length (lists global_heap)" by (simp add: global_heap_def)
  have ok: "\<forall>r \<in> set (lists global_heap ! 0).
      r < length (dicts global_heap) \<and> translations_ok (dicts global_heap ! r)"
    by code_simp
  have l: "lists global_heap = [[0]]" "dicts global_heap = [global_item]"
    "lists global_heap ! 0 = [0]"
    by (simp_all add: global_heap_def)
  have n: "map_of global_item ''name'' = Some (PStr ''Global'')" by code_simp
  have fr: "translation ''fr'' global_item ''name'' = Some (PStr ''Monde'')" by code_simp
  have de: "translation ''de'' global_item ''name'' = None" by code_simp
  have t: "truthy_str (Some ''fr'')" "truthy_str (Some ''de'')" by (simp_all add: truthy_str_def)
  from get_locale_vocabulary_resolves [OF a ok, of "Some ''fr''"] t(1)
  obtain h' b where 1: "get_locale_vocabulary global_heap (Some 0) (Some ''fr'') = Inr (h', Some b)"
    and 2: "take 1 (lists h') = [[0]]" and 3: "take 1 (dicts h') = [global_item]"
    and 4: "b = 1" and 5: "list_all2 (localised ''fr'' global_heap h') [0] (lists h' ! b)"
    by (auto simp: l)
  from 5 obtain r where r: "lists h' ! b = [r]" and lr: "localised ''fr'' global_heap h' 0 r"
    by (auto simp: list_all2_Cons1)
  from lr have "resolved ''fr'' global_item (dicts h' ! r)" by (simp add: localised_def l)
  then have 6: "map_of (dicts h' ! r) ''name'' = Some (PStr ''Monde'')"
    unfolding resolved_def by (simp add: n fr)
  from get_locale_vocabulary_resolves [OF a ok, of "Some ''de''"] t(2)
  obtain h2 b2 where 7: "get_locale_vocabulary global_heap (Some 0) (Some ''de'') = Inr (h2, Some b2)"
    and 8: "take 1 (lists h2) = [[0]]" and 9: "take 1 (dicts h2) = [global_item]"
    and 10: "b2 = 1" and 11: "list_all2 (localised ''de'' global_heap h2) [0] (lists h2 ! b2)"
    by (auto simp: l)
  from 11 obtain r2 where r2: "lists h2 ! b2 = [r2]" and lr2: "localised ''de'' global_heap h2 0 r2"
    by (auto simp: list_all2_Cons1)
  from lr2 have "resolved ''de'' global_item (dicts h2 ! r2)" by (simp add: localised_def l)
  then have 12: "map_of (dicts h2 ! r2) ''name'' = Some (PStr ''Global'')"
    unfolding resolved_def by (simp add: n de)
  from 1 4 r 6 2 3 have A: "\<exists>h' b r. get_locale_vocabulary global_heap (Some 0) (Some ''fr'') = Inr (h', Some b)
      \<and> b = 1 \<and> lists h' ! b = [r] \<and> map_of (dicts h' ! r) ''name'' = Some (PStr ''Monde'')
      \<and> take 1 (lists h') = [[0]] \<and> take 1 (dicts h') = [global_item]"
    by blast
  from 7 10 r2 12 8 9 have B: "\<exists>h' b r. get_locale_vocabulary global_heap (Some 0) (Some ''de'') = Inr (h', Some b)
      \<and> b = 1 \<and> lists h' ! b = [r] \<and> map_of (dicts h' ! r) ''name'' = Some (PStr ''Global'')
      \<and> take 1 (lists h') = [[0]] \<and> take 1 (dicts h') = [global_item]"
    by blast
  from A B show ?thesis by (rule conjI)
qed

text \<open>
  C5 as stated fails: with no language the result is the list object it was given,
  not a new list.
\<close>

theorem get_locale_vocabulary_same_list_counterexample:
  "get_locale_vocabulary global_heap (Some 0) None = Inr (global_heap, Some 0)"
  by code_simp

end
